theory Spec2Isabelle
  imports Main "HOL-Library.AList"
begin

section \<open>Python values used by the scheduling code\<close>

text \<open>
  A Python \<open>str\<close> is a sequence of Unicode code points; the day names and the daily
  markers of the source contain code points beyond ASCII, so a string is modelled as the
  list of its code points. \<open>ascii\<close> embeds an ASCII literal.
\<close>

type_synonym pystr = "nat list"

definition ascii :: "string \<Rightarrow> pystr" where
  "ascii s = map of_char s"

datatype py_error =
    KeyError | ValueError | IndexError | AttributeError | ClientError

text \<open>\<open>sub in s\<close> on strings: \<open>sub\<close> occurs in \<open>s\<close> as a contiguous run.\<close>

fun py_in :: "pystr \<Rightarrow> pystr \<Rightarrow> bool" where
  "py_in sub [] = (sub = [])"
| "py_in sub (c # cs) = (take (length sub) (c # cs) = sub \<or> py_in sub cs)"

text \<open>
  \<open>s.split(sep)\<close> for a non-empty separator: scan from the left, cut at every occurrence
  of \<open>sep\<close> and continue behind it. \<open>cur\<close> holds the part read since the last cut.
  Every separator of the source is a non-empty literal (Python raises on an empty one).
\<close>

function py_split_from :: "pystr \<Rightarrow> pystr \<Rightarrow> pystr \<Rightarrow> pystr list" where
  "py_split_from sep cur [] = [cur]"
| "py_split_from sep cur (c # cs) =
     (if sep \<noteq> [] \<and> take (length sep) (c # cs) = sep
      then cur # py_split_from sep [] (drop (length sep) (c # cs))
      else py_split_from sep (cur @ [c]) cs)"
  by pat_completeness auto
termination
  by (relation "measure (\<lambda>(sep, cur, s). length s)") auto

definition py_split :: "pystr \<Rightarrow> pystr \<Rightarrow> pystr list" where
  "py_split sep s = py_split_from sep [] s"

subsection \<open>\<open>int(s)\<close> on a string\<close>

text \<open>
  CPython turns every Unicode white space into a blank and every Unicode decimal digit
  into its ASCII digit, skips white space at both ends, reads an optional sign and then
  digits with single underscores between them. More than 4300 digits are refused
  (\<open>sys.int_max_str_digits\<close>). Anything else is a \<open>ValueError\<close>.
\<close>

definition int_space :: "nat \<Rightarrow> bool" where
  "int_space c \<longleftrightarrow>
     (9 \<le> c \<and> c \<le> 13) \<or> c = 32 \<or> c = 133 \<or> c = 160 \<or> c = 5760 \<or>
     (8192 \<le> c \<and> c \<le> 8202) \<or> c = 8232 \<or> c = 8233 \<or> c = 8239 \<or> c = 8287 \<or>
     c = 12288"

text \<open>The code points of the digit zero of every decimal script (Unicode 14).\<close>

definition decimal_zeros :: "nat list" where
  "decimal_zeros =
     [48, 1632, 1776, 1984, 2406, 2534, 2662, 2790, 2918, 3046, 3174, 3302, 3430, 3558,
      3664, 3792, 3872, 4160, 4240, 6112, 6160, 6470, 6608, 6784, 6800, 6992, 7088, 7232,
      7248, 42528, 43216, 43264, 43472, 43504, 43600, 44016, 65296, 66720, 68912, 69734,
      69872, 69942, 70096, 70384, 70736, 70864, 71248, 71360, 71472, 71904, 72016, 72784,
      73040, 73120, 92768, 92864, 93008, 120782, 120792, 120802, 120812, 120822, 123200,
      123632, 125264, 130032]"

definition digit_val :: "nat \<Rightarrow> nat option" where
  "digit_val c =
     (case List.find (\<lambda>z. z \<le> c \<and> c < z + 10) decimal_zeros of
        None \<Rightarrow> None
      | Some z \<Rightarrow> Some (c - z))"

text \<open>
  The digits behind the sign. \<open>need\<close> says that a digit must come next (at the start
  and behind an underscore); \<open>n\<close> counts the digits read, \<open>acc\<close> is their value.
\<close>

fun py_digits :: "bool \<Rightarrow> nat \<Rightarrow> nat \<Rightarrow> pystr \<Rightarrow> nat option" where
  "py_digits need n acc [] = (if need \<or> 4300 < n then None else Some acc)"
| "py_digits need n acc (c # cs) =
     (if c = 95 then (if need then None else py_digits True n acc cs)
      else case digit_val c of
             None \<Rightarrow> None
           | Some v \<Rightarrow> py_digits False (Suc n) (10 * acc + v) cs)"

definition int_strip :: "pystr \<Rightarrow> pystr" where
  "int_strip s = rev (dropWhile int_space (rev (dropWhile int_space s)))"

definition py_int :: "pystr \<Rightarrow> py_error + int" where
  "py_int s =
     (let t = int_strip s;
          (neg, body) = (case t of
                           [] \<Rightarrow> (False, [])
                         | c # cs \<Rightarrow> if c = 45 then (True, cs)
                                     else if c = 43 then (False, cs) else (False, t))
      in case py_digits True 0 0 body of
           None \<Rightarrow> Inl ValueError
         | Some v \<Rightarrow> Inr (if neg then - int v else int v))"

section \<open>The Due-Time Evaluator (centralSchedulerLambda.py)\<close>

text \<open>
  A \<open>datetime\<close>: the proleptic Gregorian ordinal of its date and its time of day.
  \<open>weekday()\<close> is \<open>(toordinal() + 6) % 7\<close>, Monday being 0.
\<close>

record datetime =
  toordinal :: nat
  hour :: nat
  minute :: nat
  second :: nat

definition weekday :: "datetime \<Rightarrow> nat" where
  "weekday t = (toordinal t + 6) mod 7"

text \<open>The Czech day names of \<open>day_mapping\<close>, as code points.\<close>

definition Pondeli :: pystr where "Pondeli = ascii ''Pond'' @ [283] @ ascii ''l'' @ [237]"
definition Utery :: pystr where "Utery = [218] @ ascii ''ter'' @ [253]"
definition Streda :: pystr where "Streda = ascii ''St'' @ [345] @ ascii ''eda''"
definition Ctvrtek :: pystr where "Ctvrtek = [268] @ ascii ''tvrtek''"
definition Patek :: pystr where "Patek = ascii ''P'' @ [225] @ ascii ''tek''"
definition Sobota :: pystr where "Sobota = ascii ''Sobota''"
definition Nedele :: pystr where "Nedele = ascii ''Ned'' @ [283] @ ascii ''le''"

definition day_mapping :: "(pystr \<times> nat) list" where
  "day_mapping =
     [(Pondeli, 0), (Utery, 1), (Streda, 2), (Ctvrtek, 3), (Patek, 4), (Sobota, 5),
      (Nedele, 6)]"

text \<open>The daily marker of the sweep path, \<open>Jednou denn\<close> followed by U+011B.\<close>

definition Jednou_denne :: pystr where
  "Jednou_denne = ascii ''Jednou denn'' @ [283]"

definition is_scheduled_time :: "datetime \<Rightarrow> pystr \<Rightarrow> py_error + bool" where
  "is_scheduled_time current_time schedule_preference =
     (let current_weekday = weekday current_time;
          current_hour = int (hour current_time)
      in if py_in Jednou_denne schedule_preference then Inr (current_hour = 12)
         else case py_split (ascii '' v '') schedule_preference of
                [day_name, time_str] \<Rightarrow>
                  (case py_split (ascii '':'') time_str of
                     [] \<Rightarrow> Inl IndexError
                   | hh # _ \<Rightarrow>
                       (case py_int hh of
                          Inl e \<Rightarrow> Inl e
                        | Inr schedule_hour \<Rightarrow>
                            Inr (map_of day_mapping day_name \<noteq> None \<and>
                                 Some current_weekday = map_of day_mapping day_name \<and>
                                 current_hour = schedule_hour)))
              | _ \<Rightarrow> Inr False)"


section \<open>The world of the handlers\<close>

text \<open>
  A DynamoDB item in the wire format of the client API: each attribute is tagged with its
  type, \<open>S\<close> for a string and \<open>M\<close> for a map. The attribute names read by the code are
  ASCII literals.
\<close>

datatype attr = S pystr | M "(string \<times> attr) list"

type_synonym item = "(string \<times> attr) list"

text \<open>The body of a queue message: the dictionary \<open>task_details\<close>, serialised.\<close>

record task_details =
  user_id :: pystr
  email :: pystr
  keywords' :: pystr
  description :: pystr
  role :: pystr
  frekvence_zasilani :: pystr

text \<open>An EventBridge target; its input is the JSON object holding the user id.\<close>

record target =
  target_Id :: pystr
  target_Arn :: pystr
  target_Input :: pystr

record eb_rule =
  ScheduleExpression :: pystr
  rule_State :: pystr
  Targets :: "target list"

text \<open>
  What one request to the role authority comes to: a 200 reply whose body decodes to
  the list of role strings, an \<open>HTTPError\<close> with its status code, or any other
  exception (no connection, a body that does not decode).
\<close>

datatype role_reply = Roles "pystr list" | Http_error nat | Other_error

datatype request =
    Scan
  | Send_message task_details
  | Get_user_role pystr
  | Delete_item pystr
  | List_rules
  | List_targets_by_rule pystr
  | Remove_targets pystr "pystr list"
  | Delete_rule pystr
  | Put_rule pystr pystr
  | Put_targets pystr target

datatype log_event =
    Log_started
  | Log_scan_response
  | Log_scan_failed
  | Log_message_sent pystr
  | Log_send_failed pystr
  | Log_roles nat "pystr list"
  | Log_not_deleting nat
  | Log_deleting nat
  | Log_http_failed nat nat
  | Log_not_found nat
  | Log_unhandled nat

text \<open>
  The state the handlers act on: the Preference Store, the Dispatch Queue, the rules of
  the trigger service, the clock, and what the outside decides: the replies of the role
  authority, which AWS request fails (by its position among all requests made) and the
  numbers the random generator draws. \<open>requests\<close> records every request in order,
  \<open>printed\<close> every line written to the log. The code reads one response of \<open>scan\<close>
  and one of \<open>list_rules\<close> and never asks for the next page: \<open>scan_page\<close> and
  \<open>rules_page\<close> say how many items and how many rules one response holds.
\<close>

record world =
  table :: "item list"
  queue :: "task_details list"
  rules :: "(pystr \<times> eb_rule) list"
  clock :: datetime
  role_authority :: "nat \<Rightarrow> role_reply"
  aws_fault :: "nat \<Rightarrow> bool"
  randoms :: "nat \<Rightarrow> nat"
  draws :: nat
  scan_page :: nat
  rules_page :: nat
  requests :: "request list"
  printed :: "log_event list"

datatype resp_body =
    Failed_to_scan
  | Messages_sent nat
  | Cleanup_completed
  | Rules_recreated
  | Error_processing_items

record response =
  statusCode :: nat
  body :: resp_body

definition then_do :: "py_error + 'a \<Rightarrow> ('a \<Rightarrow> py_error + 'b) \<Rightarrow> py_error + 'b" where
  "then_do r f = (case r of Inl e \<Rightarrow> Inl e | Inr v \<Rightarrow> f v)"

definition py_print :: "log_event \<Rightarrow> world \<Rightarrow> world" where
  "py_print e w = w\<lparr>printed := printed w @ [e]\<rparr>"

text \<open>An AWS request is recorded; it raises when the outside says so.\<close>

definition aws_call :: "request \<Rightarrow> world \<Rightarrow> (py_error + unit) \<times> world" where
  "aws_call r w =
     (if aws_fault w (length (requests w)) then Inl ClientError else Inr (),
      w\<lparr>requests := requests w @ [r]\<rparr>)"

definition dynamodb_scan :: "world \<Rightarrow> (py_error + item list) \<times> world" where
  "dynamodb_scan w =
     (case aws_call Scan w of
        (Inl e, w') \<Rightarrow> (Inl e, w')
      | (Inr _, w') \<Rightarrow> (Inr (take (scan_page w') (table w')), w'))"

definition sqs_send_message :: "task_details \<Rightarrow> world \<Rightarrow> (py_error + unit) \<times> world" where
  "sqs_send_message message w =
     (case aws_call (Send_message message) w of
        (Inl e, w') \<Rightarrow> (Inl e, w')
      | (Inr _, w') \<Rightarrow> (Inr (), w'\<lparr>queue := queue w' @ [message]\<rparr>))"

definition dynamodb_delete_item :: "pystr \<Rightarrow> world \<Rightarrow> (py_error + unit) \<times> world" where
  "dynamodb_delete_item key w =
     (case aws_call (Delete_item key) w of
        (Inl e, w') \<Rightarrow> (Inl e, w')
      | (Inr _, w') \<Rightarrow>
          (Inr (), w'\<lparr>table := filter (\<lambda>it. map_of it ''user_id'' \<noteq> Some (S key)) (table w')\<rparr>))"

section \<open>The Scheduler Sweep (centralSchedulerLambda.py)\<close>

text \<open>\<open>d[k]['M']\<close> and \<open>d[k]['S']\<close>: a missing key and a value of another type both raise.\<close>

definition get_M :: "item \<Rightarrow> string \<Rightarrow> py_error + item" where
  "get_M d k = (case map_of d k of Some (M m) \<Rightarrow> Inr m | _ \<Rightarrow> Inl KeyError)"

definition get_S :: "item \<Rightarrow> string \<Rightarrow> py_error + pystr" where
  "get_S d k = (case map_of d k of Some (S s) \<Rightarrow> Inr s | _ \<Rightarrow> Inl KeyError)"

text \<open>\<open>datetime + timedelta(hours=n)\<close>.\<close>

definition plus_hours :: "datetime \<Rightarrow> nat \<Rightarrow> datetime" where
  "plus_hours t n =
     t\<lparr>toordinal := toordinal t + (hour t + n) div 24, hour := (hour t + n) mod 24\<rparr>"

text \<open>
  The body of the loop up to the \<open>try\<close>: read the schedule, evaluate it, and build
  \<open>task_details\<close> for a due record. Nothing here is inside a \<open>try\<close>.
\<close>

definition task_for_item :: "datetime \<Rightarrow> item \<Rightarrow> py_error + task_details option" where
  "task_for_item now item =
     then_do (get_M item ''preferences'') (\<lambda>user_preferences.
     then_do (get_S user_preferences ''frekvence_zasilani'') (\<lambda>frekvence.
     then_do (is_scheduled_time now frekvence) (\<lambda>due.
       if due then
         then_do (get_S item ''user_id'') (\<lambda>uid.
         then_do (get_S user_preferences ''email_pro_zasilani_vysledku'') (\<lambda>mail.
         then_do (get_S user_preferences ''klicova_slova'') (\<lambda>kw.
         then_do (get_S user_preferences ''popis_firmy'') (\<lambda>descr.
         then_do (get_S item ''user_role'') (\<lambda>rl.
           Inr (Some \<lparr>user_id = uid, email = mail, keywords' = kw, description = descr,
                       role = rl, frekvence_zasilani = frekvence\<rparr>))))))
       else Inr None)))"

fun send_due :: "datetime \<Rightarrow> item list \<Rightarrow> nat \<Rightarrow> world \<Rightarrow> (py_error + nat) \<times> world" where
  "send_due now [] successful_sends w = (Inr successful_sends, w)"
| "send_due now (item # items) successful_sends w =
     (case task_for_item now item of
        Inl e \<Rightarrow> (Inl e, w)
      | Inr None \<Rightarrow> send_due now items successful_sends w
      | Inr (Some task) \<Rightarrow>
          (case sqs_send_message task w of
             (Inr _, w') \<Rightarrow>
               send_due now items (successful_sends + 1)
                 (py_print (Log_message_sent (user_id task)) w')
           | (Inl e, w') \<Rightarrow>
               send_due now items successful_sends
                 (py_print (Log_send_failed (user_id task)) w')))"

definition centralScheduler_lambda_handler :: "world \<Rightarrow> (py_error + response) \<times> world" where
  "centralScheduler_lambda_handler w =
     (let w0 = py_print Log_started w;
          now = plus_hours (clock w0) 2
      in case dynamodb_scan w0 of
           (Inl e, w1) \<Rightarrow>
             (Inr \<lparr>statusCode = 500, body = Failed_to_scan\<rparr>, py_print Log_scan_failed w1)
         | (Inr items, w1) \<Rightarrow>
             (case send_due now items 0 (py_print Log_scan_response w1) of
                (Inl e, w2) \<Rightarrow> (Inl e, w2)
              | (Inr n, w2) \<Rightarrow> (Inr \<lparr>statusCode = 200, body = Messages_sent n\<rparr>, w2)))"

section \<open>The Reconciliation Sweeper (CheckUserRole.py)\<close>

text \<open>\<open>str(n)\<close> for a number that is not negative: its decimal digits.\<close>

fun py_str_nat :: "nat \<Rightarrow> pystr" where
  "py_str_nat n = (if n < 10 then [48 + n] else py_str_nat (n div 10) @ [48 + n mod 10])"

declare py_str_nat.simps [simp del]

text \<open>\<open>urlopen\<close>, \<open>read\<close> and \<open>json.loads\<close> for one user id.\<close>

definition get_user_role :: "nat \<Rightarrow> world \<Rightarrow> role_reply \<times> world" where
  "get_user_role uid w =
     (role_authority w uid, w\<lparr>requests := requests w @ [Get_user_role (py_str_nat uid)]\<rparr>)"

text \<open>
  One round of the loop. An exception inside the \<open>try\<close> block is caught by one of the two
  \<open>except\<close> clauses; one raised inside the \<open>except HTTPError\<close> clause leaves the handler.
\<close>

definition check_user :: "nat \<Rightarrow> world \<Rightarrow> (py_error + unit) \<times> world" where
  "check_user uid w =
     (case get_user_role uid w of
        (Roles user_roles, w1) \<Rightarrow>
          (let w2 = py_print (Log_roles uid user_roles) w1
           in if ascii ''customer'' \<in> set user_roles \<or> ascii ''administrator'' \<in> set user_roles
              then (Inr (), py_print (Log_not_deleting uid) w2)
              else (case dynamodb_delete_item (py_str_nat uid) (py_print (Log_deleting uid) w2) of
                      (Inr _, w3) \<Rightarrow> (Inr (), w3)
                    | (Inl e, w3) \<Rightarrow> (Inr (), py_print (Log_unhandled uid) w3)))
      | (Http_error code, w1) \<Rightarrow>
          (let w2 = py_print (Log_http_failed uid code) w1
           in if code = 404
              then (case dynamodb_delete_item (py_str_nat uid) (py_print (Log_not_found uid) w2) of
                      (Inr _, w3) \<Rightarrow> (Inr (), w3)
                    | (Inl e, w3) \<Rightarrow> (Inl e, w3))
              else (Inr (), w2))
      | (Other_error, w1) \<Rightarrow> (Inr (), py_print (Log_unhandled uid) w1))"

fun check_users :: "nat list \<Rightarrow> world \<Rightarrow> (py_error + unit) \<times> world" where
  "check_users [] w = (Inr (), w)"
| "check_users (uid # uids) w =
     (case check_user uid w of
        (Inl e, w') \<Rightarrow> (Inl e, w')
      | (Inr _, w') \<Rightarrow> check_users uids w')"

definition CheckUserRole_lambda_handler :: "world \<Rightarrow> (py_error + response) \<times> world" where
  "CheckUserRole_lambda_handler w =
     (case check_users [1..<100] w of
        (Inl e, w') \<Rightarrow> (Inl e, w')
      | (Inr _, w') \<Rightarrow> (Inr \<lparr>statusCode = 200, body = Cleanup_completed\<rparr>, w'))"

section \<open>The Rule Lifecycle Manager (evenbridge_based_on_user_preferences.py)\<close>

text \<open>
  One call after the other, each on the world the one before has left; the first exception
  ends the run. The lines this handler writes to its logger are left out.
\<close>

definition and_then ::
  "(py_error + 'a) \<times> world \<Rightarrow> ('a \<Rightarrow> world \<Rightarrow> (py_error + 'b) \<times> world) \<Rightarrow>
   (py_error + 'b) \<times> world" where
  "and_then r f = (case r of (Inl e, w) \<Rightarrow> (Inl e, w) | (Inr v, w) \<Rightarrow> f v w)"

subsection \<open>The trigger service\<close>

text \<open>
  The rules are kept under their names; \<open>map_of (rules w)\<close> is the rule of a name. A rule
  name is made of at most 64 letters, digits, dots, hyphens and underscores, and
  \<open>put_rule\<close> refuses any other. \<open>put_rule\<close> on an existing name changes its schedule and
  state and keeps its targets; \<open>put_targets\<close> replaces the target of the same id;
  \<open>delete_rule\<close> refuses a rule that still has targets; a request that names a rule
  that does not exist is refused, except by \<open>delete_rule\<close>. \<open>list_rules\<close> answers with
  the first page of names; a rule has so few targets that one response of
  \<open>list_targets_by_rule\<close> holds them all.
\<close>

definition name_char :: "nat \<Rightarrow> bool" where
  "name_char c \<longleftrightarrow>
     (48 \<le> c \<and> c \<le> 57) \<or> (65 \<le> c \<and> c \<le> 90) \<or> (97 \<le> c \<and> c \<le> 122) \<or>
     c = 45 \<or> c = 46 \<or> c = 95"

definition valid_rule_name :: "pystr \<Rightarrow> bool" where
  "valid_rule_name name \<longleftrightarrow> name \<noteq> [] \<and> length name \<le> 64 \<and> list_all name_char name"

definition eb_list_rules :: "world \<Rightarrow> (py_error + pystr list) \<times> world" where
  "eb_list_rules w =
     and_then (aws_call List_rules w) (\<lambda>_ w'.
       (Inr (take (rules_page w') (remdups (map fst (rules w')))), w'))"

definition eb_list_targets_by_rule :: "pystr \<Rightarrow> world \<Rightarrow> (py_error + target list) \<times> world" where
  "eb_list_targets_by_rule name w =
     and_then (aws_call (List_targets_by_rule name) w) (\<lambda>_ w'.
       case map_of (rules w') name of
         None \<Rightarrow> (Inl ClientError, w')
       | Some r \<Rightarrow> (Inr (Targets r), w'))"

definition eb_remove_targets :: "pystr \<Rightarrow> pystr list \<Rightarrow> world \<Rightarrow> (py_error + unit) \<times> world" where
  "eb_remove_targets name ids w =
     and_then (aws_call (Remove_targets name ids) w) (\<lambda>_ w'.
       case map_of (rules w') name of
         None \<Rightarrow> (Inl ClientError, w')
       | Some r \<Rightarrow>
           (Inr (), w'\<lparr>rules := AList.update name
              (r\<lparr>Targets := filter (\<lambda>t. target_Id t \<notin> set ids) (Targets r)\<rparr>) (rules w')\<rparr>))"

definition eb_delete_rule :: "pystr \<Rightarrow> world \<Rightarrow> (py_error + unit) \<times> world" where
  "eb_delete_rule name w =
     and_then (aws_call (Delete_rule name) w) (\<lambda>_ w'.
       case map_of (rules w') name of
         None \<Rightarrow> (Inr (), w')
       | Some r \<Rightarrow>
           if Targets r \<noteq> [] then (Inl ClientError, w')
           else (Inr (), w'\<lparr>rules := AList.delete name (rules w')\<rparr>))"

definition eb_put_rule :: "pystr \<Rightarrow> pystr \<Rightarrow> pystr \<Rightarrow> world \<Rightarrow> (py_error + unit) \<times> world" where
  "eb_put_rule name schedule state w =
     and_then (aws_call (Put_rule name schedule) w) (\<lambda>_ w'.
       if \<not> valid_rule_name name then (Inl ClientError, w')
       else (Inr (), w'\<lparr>rules := AList.update name
              (case map_of (rules w') name of
                 None \<Rightarrow> \<lparr>ScheduleExpression = schedule, rule_State = state, Targets = []\<rparr>
               | Some r \<Rightarrow> r\<lparr>ScheduleExpression := schedule, rule_State := state\<rparr>)
              (rules w')\<rparr>))"

definition eb_put_targets :: "pystr \<Rightarrow> target \<Rightarrow> world \<Rightarrow> (py_error + unit) \<times> world" where
  "eb_put_targets name t w =
     and_then (aws_call (Put_targets name t) w) (\<lambda>_ w'.
       case map_of (rules w') name of
         None \<Rightarrow> (Inl ClientError, w')
       | Some r \<Rightarrow>
           (Inr (), w'\<lparr>rules := AList.update name
              (r\<lparr>Targets := filter (\<lambda>t'. target_Id t' \<noteq> target_Id t) (Targets r) @ [t]\<rparr>)
              (rules w')\<rparr>))"

text \<open>\<open>random.randint(lo, hi)\<close>: the next number of the generator, brought into range.\<close>

definition random_randint :: "nat \<Rightarrow> nat \<Rightarrow> world \<Rightarrow> nat \<times> world" where
  "random_randint lo hi w =
     (lo + randoms w (draws w) mod (hi - lo + 1), w\<lparr>draws := Suc (draws w)\<rparr>)"

subsection \<open>Clearing the rules\<close>

text \<open>\<open>str.lower()\<close>; on the alphabet of rule names it changes the letters A to Z only.\<close>

definition py_lower :: "pystr \<Rightarrow> pystr" where
  "py_lower s = map (\<lambda>c. if 65 \<le> c \<and> c \<le> 90 then c + 32 else c) s"

definition remove_targets_from_rule :: "pystr \<Rightarrow> world \<Rightarrow> (py_error + unit) \<times> world" where
  "remove_targets_from_rule rule_name w =
     and_then (eb_list_targets_by_rule rule_name w) (\<lambda>targets w1.
       let target_ids = map target_Id targets
       in if target_ids \<noteq> [] then eb_remove_targets rule_name target_ids w1
          else (Inr (), w1))"

text \<open>The loop of \<open>clear_all_rules\<close> over the listed names.\<close>

fun clear_rules :: "pystr list \<Rightarrow> world \<Rightarrow> (py_error + unit) \<times> world" where
  "clear_rules [] w = (Inr (), w)"
| "clear_rules (rule_name # names) w =
     (if py_in (ascii ''gregi'') (py_lower rule_name) then clear_rules names w
      else and_then (remove_targets_from_rule rule_name w) (\<lambda>_ w1.
           and_then (eb_delete_rule rule_name w1) (\<lambda>_ w2.
             clear_rules names w2)))"

definition clear_all_rules :: "world \<Rightarrow> (py_error + unit) \<times> world" where
  "clear_all_rules w = and_then (eb_list_rules w) (\<lambda>names w1. clear_rules names w1)"

subsection \<open>Creating the rules\<close>

text \<open>The daily marker of this path, \<open>Ka\<close> U+017E \<open>d\<close> U+00FD \<open> den\<close>.\<close>

definition Kazdy_den :: pystr where
  "Kazdy_den = ascii ''Ka'' @ [382] @ ascii ''d'' @ [253] @ ascii '' den''"

definition day_to_cron_map :: "(pystr \<times> pystr) list" where
  "day_to_cron_map =
     [(Pondeli, ascii ''cron(00 10 ? * 2 *)''),
      (Utery, ascii ''cron(00 10 ? * 3 *)''),
      (Streda, ascii ''cron(00 10 ? * 4 *)''),
      (Ctvrtek, ascii ''cron(00 10 ? * 5 *)''),
      (Patek, ascii ''cron(00 10 ? * 6 *)''),
      (Sobota, ascii ''cron(00 10 ? * 7 *)''),
      (Nedele, ascii ''cron(00 10 ? * 1 *)'')]"

definition day_to_cron :: "pystr \<Rightarrow> pystr" where
  "day_to_cron day_name =
     (case map_of day_to_cron_map day_name of
        Some cron \<Rightarrow> cron
      | None \<Rightarrow> ascii ''cron(00 10 ? * * *)'')"

definition lambda_arn :: pystr where
  "lambda_arn = ascii ''arn:aws:lambda:eu-north-1:462197742027:function:EU_Czech_Tender_Search''"

text \<open>
  The target the code attaches for a user; its input is the JSON object with the user id.
\<close>

definition worker_target :: "pystr \<Rightarrow> target" where
  "worker_target uid =
     \<lparr>target_Id = ascii ''target_'' @ uid, target_Arn = lambda_arn, target_Input = uid\<rparr>"

definition rule_name_for :: "pystr \<Rightarrow> nat \<Rightarrow> pystr" where
  "rule_name_for uid random_number =
     ascii ''rule_for_user_'' @ uid @ ascii ''_'' @ py_str_nat random_number"

text \<open>
  \<open>user_id\<close> is the string key of the table. A map in its place would be formatted as a
  dictionary display, which is no rule name: \<open>put_rule\<close> refuses it.
\<close>

definition create_eventbridge_rule ::
  "attr \<Rightarrow> pystr \<Rightarrow> pystr \<Rightarrow> world \<Rightarrow> (py_error + unit) \<times> world" where
  "create_eventbridge_rule uid cron_expression day_name w =
     (let (random_number, w1) = random_randint 1000 9999 w
      in case uid of
           M m \<Rightarrow> (Inl ClientError, w1)
         | S u \<Rightarrow>
             and_then (eb_put_rule (rule_name_for u random_number) cron_expression
                         (ascii ''ENABLED'') w1) (\<lambda>_ w2.
               eb_put_targets (rule_name_for u random_number) (worker_target u) w2))"

definition process_day_with_time :: "attr \<Rightarrow> pystr \<Rightarrow> world \<Rightarrow> (py_error + unit) \<times> world" where
  "process_day_with_time uid day_with_time w =
     (if py_in Kazdy_den day_with_time
      then create_eventbridge_rule uid (ascii ''cron(00 10 * * ? *)'') (ascii ''Everyday'') w
      else case py_split (ascii '' v '') day_with_time of
             [] \<Rightarrow> (Inl IndexError, w)
           | day_part # _ \<Rightarrow> create_eventbridge_rule uid (day_to_cron day_part) day_part w)"

fun process_days :: "attr \<Rightarrow> pystr list \<Rightarrow> world \<Rightarrow> (py_error + unit) \<times> world" where
  "process_days uid [] w = (Inr (), w)"
| "process_days uid (day_with_time # days_with_times) w =
     and_then (process_day_with_time uid day_with_time w) (\<lambda>_ w1.
       process_days uid days_with_times w1)"

text \<open>
  \<open>preferences.get\<close> needs a map and \<open>split\<close> a string; the empty string, the empty map
  and a missing key are false.
\<close>

definition process_user_preferences :: "attr \<Rightarrow> attr \<Rightarrow> world \<Rightarrow> (py_error + unit) \<times> world" where
  "process_user_preferences uid preferences w =
     (case preferences of
        S s \<Rightarrow> (Inl AttributeError, w)
      | M p \<Rightarrow>
          (case map_of p ''frekvence_zasilani'' of
             None \<Rightarrow> (Inr (), w)
           | Some (S schedule_preference) \<Rightarrow>
               if schedule_preference \<noteq> []
               then process_days uid (py_split (ascii '', '') schedule_preference) w
               else (Inr (), w)
           | Some (M m) \<Rightarrow> if m \<noteq> [] then (Inl AttributeError, w) else (Inr (), w)))"

definition truthy :: "attr option \<Rightarrow> bool" where
  "truthy v = (case v of None \<Rightarrow> False | Some (S s) \<Rightarrow> s \<noteq> [] | Some (M m) \<Rightarrow> m \<noteq> [])"

fun process_items :: "item list \<Rightarrow> world \<Rightarrow> (py_error + unit) \<times> world" where
  "process_items [] w = (Inr (), w)"
| "process_items (item # items) w =
     (case (map_of item ''user_id'', map_of item ''preferences'') of
        (Some uid, Some preferences) \<Rightarrow>
          if truthy (Some uid) \<and> truthy (Some preferences)
          then and_then (process_user_preferences uid preferences w) (\<lambda>_ w1.
                 process_items items w1)
          else process_items items w
      | _ \<Rightarrow> process_items items w)"

text \<open>Every exception is caught by the handler and answered with a 500.\<close>

definition evenbridge_lambda_handler :: "world \<Rightarrow> (py_error + response) \<times> world" where
  "evenbridge_lambda_handler w =
     (case and_then (clear_all_rules w) (\<lambda>_ w1.
           and_then (dynamodb_scan w1) (\<lambda>items w2.
             process_items items w2)) of
        (Inr _, w') \<Rightarrow> (Inr \<lparr>statusCode = 200, body = Rules_recreated\<rparr>, w')
      | (Inl e, w') \<Rightarrow> (Inr \<lparr>statusCode = 500, body = Error_processing_items\<rparr>, w'))"

section \<open>Notions of the specification\<close>

text \<open>
  A time of day \<open>HH:MM\<close> is written with ASCII digits; \<open>dec_value\<close> is the number a
  run of digits denotes.
\<close>

definition ascii_digit :: "nat \<Rightarrow> bool" where
  "ascii_digit c \<longleftrightarrow> 48 \<le> c \<and> c \<le> 57"

definition dec_value :: "pystr \<Rightarrow> nat" where
  "dec_value s = foldl (\<lambda>a c. 10 * a + (c - 48)) 0 s"

text \<open>Wednesday, 1 May 2024, 12:07.\<close>

definition wednesday_12_07 :: datetime where
  "wednesday_12_07 = \<lparr>toordinal = 739007, hour = 12, minute = 7, second = 0\<rparr>"

text \<open>
  The records one response of a scan holds, and the rule names one response of
  \<open>list_rules\<close> holds.
\<close>

definition scanned :: "world \<Rightarrow> item list" where
  "scanned w = take (scan_page w) (table w)"

definition listed :: "world \<Rightarrow> pystr list" where
  "listed w = take (rules_page w) (remdups (map fst (rules w)))"

text \<open>
  What the sweep does with a record. It selects the record when the evaluator returns
  \<open>True\<close> on the schedule string of the record, and skips it when the evaluator returns
  \<open>False\<close>. The evaluator is given the whole string: the sweep does not cut it at the
  commas, so a schedule of several entries is never selected.
\<close>

definition frequency_of :: "item \<Rightarrow> py_error + pystr" where
  "frequency_of item =
     then_do (get_M item ''preferences'') (\<lambda>p. get_S p ''frekvence_zasilani'')"

definition selected :: "datetime \<Rightarrow> item \<Rightarrow> bool" where
  "selected now item \<longleftrightarrow> then_do (frequency_of item) (is_scheduled_time now) = Inr True"

definition skipped :: "datetime \<Rightarrow> item \<Rightarrow> bool" where
  "skipped now item \<longleftrightarrow> then_do (frequency_of item) (is_scheduled_time now) = Inr False"

text \<open>
  The DispatchRequest built from a record that has all the attributes the sweep reads.
\<close>

definition dispatch_request :: "item \<Rightarrow> py_error + task_details" where
  "dispatch_request item =
     then_do (get_M item ''preferences'') (\<lambda>p.
     then_do (get_S p ''frekvence_zasilani'') (\<lambda>fr.
     then_do (get_S item ''user_id'') (\<lambda>uid.
     then_do (get_S p ''email_pro_zasilani_vysledku'') (\<lambda>mail.
     then_do (get_S p ''klicova_slova'') (\<lambda>kw.
     then_do (get_S p ''popis_firmy'') (\<lambda>descr.
     then_do (get_S item ''user_role'') (\<lambda>rl.
       Inr \<lparr>user_id = uid, email = mail, keywords' = kw, description = descr,
            role = rl, frekvence_zasilani = fr\<rparr>)))))))"

text \<open>
  A record the sweep can process: the evaluator returns on its schedule string, and a
  selected record has the attributes of a DispatchRequest.
\<close>

definition well_formed :: "datetime \<Rightarrow> item \<Rightarrow> bool" where
  "well_formed now item \<longleftrightarrow>
     (selected now item \<and> dispatch_request item \<noteq> Inl KeyError) \<or> skipped now item"

text \<open>
  The DispatchRequests of the selected records, in scan order.
\<close>

definition selected_requests :: "datetime \<Rightarrow> item list \<Rightarrow> task_details list" where
  "selected_requests now items =
     List.map_filter
       (\<lambda>item. if selected now item
               then (case dispatch_request item of Inr t \<Rightarrow> Some t | Inl _ \<Rightarrow> None)
               else None) items"

text \<open>
  Of the messages \<open>ts\<close>, sent as the AWS requests number \<open>k\<close>, \<open>k + 1\<close>, ..., those
  whose request does not fail, and the log lines of the sends.
\<close>

fun delivered :: "(nat \<Rightarrow> bool) \<Rightarrow> nat \<Rightarrow> task_details list \<Rightarrow> task_details list" where
  "delivered fault k [] = []"
| "delivered fault k (t # ts) = (if fault k then [] else [t]) @ delivered fault (Suc k) ts"

fun send_log :: "(nat \<Rightarrow> bool) \<Rightarrow> nat \<Rightarrow> task_details list \<Rightarrow> log_event list" where
  "send_log fault k [] = []"
| "send_log fault k (t # ts) =
     (if fault k then Log_send_failed (user_id t) else Log_message_sent (user_id t))
     # send_log fault (Suc k) ts"

text \<open>
  A store of three users at 10:07 UTC on Wednesday, 1 May 2024 (12:07 at UTC+2): user 1
  asks for Wednesday at 12:00, user 2 for Monday at 10:00, user 3 for once a day.
\<close>

definition example_item :: "pystr \<Rightarrow> pystr \<Rightarrow> item" where
  "example_item uid schedule =
     [(''user_id'', S uid),
      (''user_email'', S (ascii ''user@example.org'')),
      (''user_role'', S (ascii ''customer'')),
      (''preferences'', M
         [(''druh_zakazek'', S (ascii ''EU'')),
          (''klicova_slova'', S (ascii ''bridge, road'')),
          (''frekvence_zasilani'', S schedule),
          (''email_pro_zasilani_vysledku'', S (ascii ''results@example.org'')),
          (''popis_firmy'', S (ascii ''builder''))])]"

definition example_request :: "pystr \<Rightarrow> pystr \<Rightarrow> task_details" where
  "example_request uid schedule =
     \<lparr>user_id = uid, email = ascii ''results@example.org'',
      keywords' = ascii ''bridge, road'', description = ascii ''builder'',
      role = ascii ''customer'', frekvence_zasilani = schedule\<rparr>"

definition example_world :: world where
  "example_world =
     \<lparr>table = [example_item (ascii ''1'') (Streda @ ascii '' v 12:00''),
               example_item (ascii ''2'') (Pondeli @ ascii '' v 10:00''),
               example_item (ascii ''3'') Jednou_denne],
      queue = [],
      rules = [],
      clock = \<lparr>toordinal = 739007, hour = 10, minute = 7, second = 0\<rparr>,
      role_authority = (\<lambda>uid. Other_error),
      aws_fault = (\<lambda>k. False),
      randoms = (\<lambda>k. 0),
      draws = 0,
      scan_page = 100,
      rules_page = 100,
      requests = [],
      printed = []\<rparr>"

text \<open>
  The same world with a scan that fails, and with a first send that fails.
\<close>

definition scan_outage :: world where
  "scan_outage = example_world\<lparr>aws_fault := (\<lambda>k. k = 0)\<rparr>"

definition first_send_fails :: world where
  "first_send_fails = example_world\<lparr>aws_fault := (\<lambda>k. k = 1)\<rparr>"

text \<open>
  The verdict of the role authority on a user, in the words of the specification: the
  record goes when the roles hold neither \<open>customer\<close> nor \<open>administrator\<close>, or when the
  user is unknown (404). Every other failure is ambiguous.
\<close>

definition should_delete :: "role_reply \<Rightarrow> bool" where
  "should_delete reply =
     (case reply of
        Roles rs \<Rightarrow> ascii ''customer'' \<notin> set rs \<and> ascii ''administrator'' \<notin> set rs
      | Http_error code \<Rightarrow> code = 404
      | Other_error \<Rightarrow> False)"

definition failure_logged :: "nat \<Rightarrow> role_reply \<Rightarrow> log_event list \<Rightarrow> bool" where
  "failure_logged uid reply lines =
     (case reply of
        Roles rs \<Rightarrow> True
      | Http_error code \<Rightarrow> code = 404 \<or> Log_http_failed uid code \<in> set lines
      | Other_error \<Rightarrow> Log_unhandled uid \<in> set lines)"

text \<open>The records that survive the verdicts on the users \<open>uids\<close>.\<close>

definition survives :: "nat list \<Rightarrow> (nat \<Rightarrow> role_reply) \<Rightarrow> item \<Rightarrow> bool" where
  "survives uids authority record \<longleftrightarrow>
     (\<forall>uid\<in>set uids. should_delete (authority uid) \<longrightarrow>
        map_of record ''user_id'' \<noteq> Some (S (py_str_nat uid)))"

text \<open>
  The scenario of the specification: the authority knows user 1 as a customer, does not
  know user 2, and fails with a 500 for user 3. In the second world it answers 404 for
  every user, and the store holds a user 100.
\<close>

definition reconcile_world :: world where
  "reconcile_world =
     example_world\<lparr>role_authority :=
       (\<lambda>uid. if uid = 1 then Roles [ascii ''subscriber'', ascii ''customer'']
              else if uid = 2 then Http_error 404
              else if uid = 3 then Http_error 500
              else Other_error)\<rparr>"

definition purge_world :: world where
  "purge_world =
     example_world\<lparr>table := [example_item (ascii ''100'') Jednou_denne,
                              example_item (ascii ''7'') Jednou_denne],
                   role_authority := (\<lambda>uid. Http_error 404)\<rparr>"

text \<open>
  A protected rule: its name, in lower case, contains the reserved marker.
\<close>

definition protected :: "pystr \<Rightarrow> bool" where
  "protected name \<longleftrightarrow> py_in (ascii ''gregi'') (py_lower name)"

text \<open>
  The names of the rules put by a run: those of the \<open>put_rule\<close> requests made between
  the world before and the world after.
\<close>

definition put_names :: "request list \<Rightarrow> pystr list" where
  "put_names rs = concat (map (\<lambda>r. case r of Put_rule name cron \<Rightarrow> [name] | _ \<Rightarrow> []) rs)"

definition created :: "world \<Rightarrow> world \<Rightarrow> pystr list" where
  "created w w' = put_names (drop (length (requests w)) (requests w'))"

text \<open>
  A user has a rule when, for some number from 1000 to 9999, the rule named for the user
  and that number exists and carries the target of the Search Worker for that user. A
  record is eligible when its \<open>user_id\<close> and its frequency string are not empty.
\<close>

definition has_rule :: "pystr \<Rightarrow> world \<Rightarrow> bool" where
  "has_rule u w \<longleftrightarrow>
     (\<exists>n\<in>{1000..9999}.
        case map_of (rules w) (rule_name_for u n) of
          None \<Rightarrow> False
        | Some r \<Rightarrow> worker_target u \<in> set (Targets r))"

definition eligible :: "item \<Rightarrow> pystr \<Rightarrow> bool" where
  "eligible item u \<longleftrightarrow>
     u \<noteq> [] \<and> map_of item ''user_id'' = Some (S u) \<and>
     (case map_of item ''preferences'' of
        Some (M p) \<Rightarrow>
          (case map_of p ''frekvence_zasilani'' of Some (S f) \<Rightarrow> f \<noteq> [] | _ \<Rightarrow> False)
      | _ \<Rightarrow> False)"

text \<open>
  What creating rules does to the world: the store is kept, requests are added, the rules
  that are not put are kept, and a user who has a rule still has one.
\<close>

definition grows :: "world \<Rightarrow> world \<Rightarrow> bool" where
  "grows w w' \<longleftrightarrow>
     table w' = table w \<and>
     (\<exists>new. requests w' = requests w @ new \<and>
        (\<forall>n. n \<notin> set (put_names new) \<longrightarrow> map_of (rules w') n = map_of (rules w) n)) \<and>
     (\<forall>u. has_rule u w \<longrightarrow> has_rule u w')"

text \<open>
  Two worlds for the rebuild. In the first the generator repeats the number 1000, and the
  trigger service already holds rules of these very names, one of them protected (a user
  id contains the marker). In the second the names generated are new.
\<close>

definition nightly_rule :: eb_rule where
  "nightly_rule =
     \<lparr>ScheduleExpression = ascii ''rate(1 day)'', rule_State = ascii ''ENABLED'', Targets = []\<rparr>"

definition collision_world :: world where
  "collision_world =
     example_world\<lparr>
       table := [example_item (ascii ''1'') Kazdy_den,
                 example_item (ascii ''gregi'') Kazdy_den],
       rules := [(ascii ''rule_for_user_gregi_1000'', nightly_rule),
                 (ascii ''rule_for_user_1_1000'',
                  nightly_rule\<lparr>Targets := [worker_target (ascii ''1'')]\<rparr>)]\<rparr>"

definition rebuild_world :: world where
  "rebuild_world =
     example_world\<lparr>
       rules := [(ascii ''Gregi-nightly'', nightly_rule),
                 (ascii ''rule_for_user_2_4321'',
                  nightly_rule\<lparr>Targets := [worker_target (ascii ''2'')]\<rparr>)]\<rparr>"

text \<open>
  A store in which the schedule of the first user has a time that is no number, while the
  user behind is due. The same with a due user in front whose send fails (the scan is
  request 0, the first send request 1). And a store of two due users of which one response
  of the scan holds the first only.
\<close>

definition malformed_world :: world where
  "malformed_world =
     example_world\<lparr>table := [example_item (ascii ''1'') (Pondeli @ ascii '' v abc''),
                              example_item (ascii ''3'') Jednou_denne]\<rparr>"

definition due_then_malformed :: world where
  "due_then_malformed =
     example_world\<lparr>table := [example_item (ascii ''3'') Jednou_denne,
                              example_item (ascii ''1'') (Pondeli @ ascii '' v abc''),
                              example_item (ascii ''4'') (Streda @ ascii '' v 12:00'')],
                   aws_fault := (\<lambda>k. k = 1)\<rparr>"

definition second_page_world :: world where
  "second_page_world =
     example_world\<lparr>table := [example_item (ascii ''3'') Jednou_denne,
                              example_item (ascii ''1'') (Streda @ ascii '' v 12:00'')],
                   scan_page := 1\<rparr>"

text \<open>
  The authority does not know any user, and the first deletion fails (the role query is
  request 0, the deletion request 1).
\<close>

definition store_fault_world :: world where
  "store_fault_world =
     example_world\<lparr>role_authority := (\<lambda>uid. Http_error 404),
                   aws_fault := (\<lambda>k. k = 1)\<rparr>"

text \<open>
  The trigger service holds two unprotected rules, and one response of \<open>list_rules\<close>
  holds one name; the store is empty.
\<close>

definition two_pages_of_rules :: world where
  "two_pages_of_rules =
     example_world\<lparr>table := [],
                   rules := [(ascii ''rule_for_user_5_2222'',
                              \<lparr>ScheduleExpression = ascii ''cron(00 10 * * ? *)'',
                               rule_State = ascii ''ENABLED'', Targets = []\<rparr>),
                             (ascii ''rule_for_user_6_3333'',
                              \<lparr>ScheduleExpression = ascii ''cron(00 10 * * ? *)'',
                               rule_State = ascii ''ENABLED'', Targets = []\<rparr>)],
                   rules_page := 1\<rparr>"

section \<open>Strings: splitting and reading numbers\<close>

lemma py_split_from_cut:
  "sep \<noteq> [] \<Longrightarrow> hd sep \<notin> set d \<Longrightarrow>
   py_split_from sep cur (d @ sep @ rest) = (cur @ d) # py_split_from sep [] rest"
proof (induction d arbitrary: cur)
  case Nil
  then show ?case by (cases sep) simp_all
next
  case (Cons c d)
  from Cons.prems have "take (length sep) (c # d @ sep @ rest) \<noteq> sep"
    by (cases sep) auto
  with Cons show ?case by simp
qed

lemma py_split_from_none:
  "sep \<noteq> [] \<Longrightarrow> hd sep \<notin> set s \<Longrightarrow> py_split_from sep cur s = [cur @ s]"
proof (induction s arbitrary: cur)
  case Nil
  then show ?case by simp
next
  case (Cons c s)
  from Cons.prems have "take (length sep) (c # s) \<noteq> sep"
    by (cases sep) auto
  with Cons show ?case by simp
qed

lemma py_split_from_nonempty: "py_split_from sep cur s \<noteq> []"
  by (induction sep cur s rule: py_split_from.induct) auto

lemma py_split_from_single:
  "py_split_from sep cur s = [r] \<Longrightarrow> r = cur @ s"
  by (induction sep cur s rule: py_split_from.induct)
     (auto split: if_splits simp: py_split_from_nonempty)

lemma py_in_set: "py_in sub s \<Longrightarrow> set sub \<subseteq> set s"
proof (induction s)
  case Nil
  then show ?case by simp
next
  case (Cons c s)
  show ?case
  proof (cases "take (length sub) (c # s) = sub")
    case True
    then have "set sub = set (take (length sub) (c # s))" by simp
    then show ?thesis using set_take_subset by fast
  next
    case False
    with Cons show ?thesis by auto
  qed
qed

lemma digit_val_ascii: "ascii_digit c \<Longrightarrow> digit_val c = Some (c - 48)"
  by (simp add: ascii_digit_def digit_val_def decimal_zeros_def)

lemma py_digits_ascii:
  "list_all ascii_digit ds \<Longrightarrow> n + length ds \<le> 4300 \<Longrightarrow>
   py_digits False n acc ds = Some (foldl (\<lambda>a c. 10 * a + (c - 48)) acc ds)"
proof (induction ds arbitrary: n acc)
  case Nil
  then show ?case by simp
next
  case (Cons c ds)
  then have "c \<noteq> 95" by (auto simp: ascii_digit_def)
  with Cons show ?case by (simp add: digit_val_ascii)
qed

lemma int_strip_id: "list_all (\<lambda>c. \<not> int_space c) s \<Longrightarrow> int_strip s = s"
proof -
  assume a: "list_all (\<lambda>c. \<not> int_space c) s"
  then have "dropWhile int_space s = s" by (cases s) auto
  moreover from a have "dropWhile int_space (rev s) = rev s"
    by (cases "rev s") (auto simp: list_all_iff dest: arg_cong [where f = set])
  ultimately show ?thesis by (simp add: int_strip_def)
qed

lemma ascii_digit_not_space: "ascii_digit c \<Longrightarrow> \<not> int_space c"
  by (auto simp: ascii_digit_def int_space_def)

lemma py_int_ascii:
  assumes "hh \<noteq> []" "list_all ascii_digit hh" "length hh \<le> 4300"
  shows "py_int hh = Inr (int (dec_value hh))"
proof -
  from assms obtain c cs where hh: "hh = c # cs" by (cases hh) auto
  from assms(2) have "list_all (\<lambda>c. \<not> int_space c) hh"
    by (auto simp: list_all_iff ascii_digit_not_space)
  then have strip: "int_strip (c # cs) = c # cs" unfolding hh by (rule int_strip_id)
  from assms(2) hh have c: "ascii_digit c" and cs: "list_all ascii_digit cs" by auto
  from c have ne: "c \<noteq> 45" "c \<noteq> 43" "c \<noteq> 95" by (auto simp: ascii_digit_def)
  from assms(3) hh have "Suc 0 + length cs \<le> 4300" by simp
  with cs have "py_digits False (Suc 0) (c - 48) cs =
      Some (foldl (\<lambda>a c. 10 * a + (c - 48)) (c - 48) cs)"
    by (rule py_digits_ascii)
  with ne c have "py_digits True 0 0 (c # cs) = Some (dec_value (c # cs))"
    by (simp add: dec_value_def digit_val_ascii)
  with ne show ?thesis unfolding hh py_int_def strip by simp
qed


section \<open>The Due-Time Evaluator decides as specified\<close>

lemmas day_names =
  Pondeli_def Utery_def Streda_def Ctvrtek_def Patek_def Sobota_def Nedele_def

lemma sep_v: "ascii '' v '' = [32, 118, 32]" by (simp add: ascii_def)
lemma sep_colon: "ascii '':'' = [58]" by (simp add: ascii_def)

lemma day_name_chars:
  "map_of day_mapping day = Some d \<Longrightarrow> 32 \<notin> set day \<and> 74 \<notin> set day"
  by (auto simp: day_mapping_def day_names ascii_def split: if_splits)

lemma marker_has_J: "74 \<in> set Jednou_denne"
  by (simp add: Jednou_denne_def ascii_def)

lemma split_entry:
  assumes "32 \<notin> set day"
  shows "py_split (ascii '' v '') (day @ ascii '' v '' @ t) =
         day # py_split (ascii '' v '') t"
  using assms py_split_from_cut [of "ascii '' v ''" day "[]" t]
  by (simp add: py_split_def sep_v)

lemma split_time:
  assumes "list_all ascii_digit hh"
  shows "py_split (ascii '':'') (hh @ ascii '':'' @ mm) =
         hh # py_split (ascii '':'') mm"
proof -
  from assms have "58 \<notin> set hh" by (auto simp: list_all_iff ascii_digit_def)
  then show ?thesis
    using py_split_from_cut [of "ascii '':''" hh "[]" mm]
    by (simp add: py_split_def sep_colon)
qed

text \<open>
  Claim C3. An entry \<open>day v HH:MM\<close> whose day is one of the seven names of
  \<open>day_mapping\<close> is due at an instant exactly when the weekday of the instant is the
  table's entry for the day and its hour is the number \<open>HH\<close>. Neither the minutes of the
  entry nor those of the instant occur in the result. (\<open>int\<close> refuses more than 4300
  digits, hence the bound on \<open>HH\<close>.)
\<close>

theorem day_entry_due_iff:
  assumes day: "map_of day_mapping day = Some d"
    and hh: "hh \<noteq> []" "list_all ascii_digit hh" "length hh \<le> 4300"
    and mm: "list_all ascii_digit mm"
  shows "is_scheduled_time now (day @ ascii '' v '' @ hh @ ascii '':'' @ mm) =
         Inr (weekday now = d \<and> int (hour now) = int (dec_value hh))"
proof -
  let ?t = "hh @ ascii '':'' @ mm"
  let ?s = "day @ ascii '' v '' @ ?t"
  from day have chars: "32 \<notin> set day" "74 \<notin> set day"
    using day_name_chars by blast+
  from hh(2) mm have t: "32 \<notin> set ?t" "74 \<notin> set ?t"
    by (auto simp: list_all_iff ascii_digit_def sep_colon)
  from chars t have "74 \<notin> set ?s" by (simp add: sep_v)
  then have nomark: "\<not> py_in Jednou_denne ?s"
    using py_in_set marker_has_J by blast
  from t(1) have "py_split (ascii '' v '') ?t = [?t]"
    using py_split_from_none [of "ascii '' v ''" ?t "[]"]
    by (simp add: py_split_def sep_v)
  with chars(1) have parts: "py_split (ascii '' v '') ?s = [day, ?t]"
    by (simp add: split_entry)
  have hour: "py_split (ascii '':'') ?t = hh # py_split (ascii '':'') mm"
    using hh(2) by (rule split_time)
  have "py_int hh = Inr (int (dec_value hh))"
    using hh by (rule py_int_ascii)
  with nomark parts hour day show ?thesis
    by (auto simp: is_scheduled_time_def)
qed

text \<open>
  Claim C4. A schedule string that contains the daily marker of the sweep path is due
  exactly when the hour of the instant is 12, whatever the weekday and whatever else the
  string holds.
\<close>

theorem daily_marker_due_iff:
  "py_in Jednou_denne s \<Longrightarrow> is_scheduled_time now s = Inr (hour now = 12)"
  by (simp add: is_scheduled_time_def)

text \<open>
  An entry \<open>day v HH:MM\<close> without the daily marker whose day token (a word without
  blanks) is none of the seven day names, and whose hour is a number, is not due at any
  instant. The text behind the hour is arbitrary.
\<close>

lemma unknown_day_numeric_hour_not_due:
  assumes nomark: "\<not> py_in Jednou_denne (day @ ascii '' v '' @ hh @ ascii '':'' @ mm)"
    and day: "map_of day_mapping day = None" "32 \<notin> set day"
    and hh: "hh \<noteq> []" "list_all ascii_digit hh" "length hh \<le> 4300"
  shows "is_scheduled_time now (day @ ascii '' v '' @ hh @ ascii '':'' @ mm) = Inr False"
proof -
  let ?t = "hh @ ascii '':'' @ mm"
  let ?s = "day @ ascii '' v '' @ ?t"
  have parts: "py_split (ascii '' v '') ?s = day # py_split (ascii '' v '') ?t"
    using day(2) by (rule split_entry)
  have hour: "py_split (ascii '':'') ?t = hh # py_split (ascii '':'') mm"
    using hh(2) by (rule split_time)
  have int: "py_int hh = Inr (int (dec_value hh))"
    using hh by (rule py_int_ascii)
  show ?thesis
  proof (cases "py_split (ascii '' v '') ?t")
    case Nil
    then show ?thesis by (simp add: py_split_def py_split_from_nonempty)
  next
    case (Cons r rs)
    show ?thesis
    proof (cases rs)
      case Nil
      with Cons have "r = ?t"
        using py_split_from_single [of "ascii '' v ''" "[]" ?t r]
        by (simp add: py_split_def)
      with Cons Nil parts have "py_split (ascii '' v '') ?s = [day, ?t]" by simp
      with nomark hour int day(1) show ?thesis
        by (simp add: is_scheduled_time_def)
    next
      case (Cons r' rs')
      with \<open>py_split (ascii '' v '') ?t = r # rs\<close> parts
      have "py_split (ascii '' v '') ?s = day # r # r' # rs'" by simp
      with nomark show ?thesis by (simp add: is_scheduled_time_def)
    qed
  qed
qed

text \<open>
  Claim C5 fails on the code. The hour is converted before the day is looked up, and the
  conversion is unguarded: for a day token that is none of the seven names, followed by a
  time that is no number, the evaluator does not return \<open>False\<close> but raises
  \<open>ValueError\<close>, at every instant.
\<close>

theorem unknown_day_non_numeric_hour_raises:
  "is_scheduled_time now (ascii ''Wednesday v noon'') = Inl ValueError"
  by (simp add: is_scheduled_time_def Jednou_denne_def ascii_def py_split_def
      py_int_def int_strip_def int_space_def digit_val_def decimal_zeros_def)

text \<open>
  Claim C6 fails on the code. The evaluator answers \<open>False\<close> for a string that does not
  split in two and for an unknown day name, but the conversion of the hour is unguarded:
  a recognised day followed by a time that is not a number raises \<open>ValueError\<close>, at
  every instant.
\<close>

theorem non_numeric_hour_raises:
  "is_scheduled_time now (Pondeli @ ascii '' v abc'') = Inl ValueError"
  by (simp add: is_scheduled_time_def Jednou_denne_def Pondeli_def ascii_def py_split_def
      py_int_def int_strip_def int_space_def digit_val_def decimal_zeros_def)



text \<open>
  The scenario of the specification: the entry for Wednesday at 12:00, evaluated on a
  Wednesday at 12:07.
\<close>

theorem day_entry_due_iff_witness:
  "map_of day_mapping Streda = Some 2 \<and>
   is_scheduled_time wednesday_12_07
     (Streda @ ascii '' v '' @ ascii ''12'' @ ascii '':'' @ ascii ''00'') = Inr True"
  using day_entry_due_iff [of Streda 2 "ascii ''12''" "ascii ''00''" wednesday_12_07]
  by (simp add: day_mapping_def day_names ascii_def ascii_digit_def dec_value_def
      weekday_def wednesday_12_07_def)

theorem daily_marker_due_iff_witness:
  "py_in Jednou_denne (Jednou_denne @ ascii '', '' @ Streda) \<and>
   is_scheduled_time wednesday_12_07 (Jednou_denne @ ascii '', '' @ Streda) = Inr True"
  using daily_marker_due_iff [of "Jednou_denne @ ascii '', '' @ Streda" wednesday_12_07]
  by (simp add: Jednou_denne_def ascii_def wednesday_12_07_def)

lemma unknown_day_numeric_hour_not_due_example:
  "map_of day_mapping (ascii ''Wednesday'') = None \<and>
   is_scheduled_time wednesday_12_07
     (ascii ''Wednesday'' @ ascii '' v '' @ ascii ''12'' @ ascii '':'' @ ascii ''00'') =
   Inr False"
  using unknown_day_numeric_hour_not_due [of "ascii ''Wednesday''" "ascii ''12''" "ascii ''00''"
      wednesday_12_07]
  by (simp add: day_mapping_def day_names Jednou_denne_def ascii_def ascii_digit_def)

text \<open>
  The sweep hands the evaluator the whole schedule string. A schedule of two entries splits
  at \<open> v \<close> into three parts and is never due, although its second entry alone is due on
  a Wednesday at 12:07.
\<close>

lemma two_entries_never_due:
  "is_scheduled_time now
     (Pondeli @ ascii '' v 10:00, '' @ Streda @ ascii '' v 12:00'') = Inr False"
  "is_scheduled_time wednesday_12_07 (Streda @ ascii '' v 12:00'') = Inr True"
  by (simp_all add: is_scheduled_time_def Jednou_denne_def day_mapping_def day_names ascii_def
      py_split_def py_int_def int_strip_def int_space_def digit_val_def decimal_zeros_def
      weekday_def wednesday_12_07_def)

section \<open>What the Scheduler Sweep dispatches\<close>

lemma get_S_error: "get_S d k = Inl e \<Longrightarrow> e = KeyError"
  by (auto simp: get_S_def split: option.splits attr.splits)

lemma get_M_error: "get_M d k = Inl e \<Longrightarrow> e = KeyError"
  by (auto simp: get_M_def split: option.splits attr.splits)

lemma then_do_Inr [simp]: "then_do (Inr x) f = f x"
  by (simp add: then_do_def)

lemma then_do_Inl [simp]: "then_do (Inl e) f = Inl e"
  by (simp add: then_do_def)

lemma then_do_InrE:
  assumes "then_do r f = Inr v"
  obtains x where "r = Inr x" and "f x = Inr v"
  using assms by (cases r) simp_all

lemma then_do_InlE:
  assumes "then_do r f = Inl e"
  obtains "r = Inl e" | x where "r = Inr x" and "f x = Inl e"
  using assms by (cases r) simp_all

lemma dispatch_request_error: "dispatch_request item = Inl e \<Longrightarrow> e = KeyError"
  unfolding dispatch_request_def
  by (auto elim!: then_do_InlE dest: get_S_error get_M_error)

lemma task_for_item_selected:
  "selected now item \<Longrightarrow> dispatch_request item = Inr t \<Longrightarrow> task_for_item now item = Inr (Some t)"
  unfolding selected_def frequency_of_def dispatch_request_def task_for_item_def
  by (auto elim!: then_do_InrE)

lemma task_for_item_skipped:
  "skipped now item \<Longrightarrow> task_for_item now item = Inr None"
  unfolding skipped_def frequency_of_def task_for_item_def
  by (auto elim!: then_do_InrE)

lemma selected_not_skipped: "selected now item \<Longrightarrow> \<not> skipped now item"
  by (simp add: selected_def skipped_def)

lemma send_due_run:
  "\<forall>item\<in>set items. well_formed now item \<Longrightarrow>
   send_due now items n w =
     (Inr (n + length (delivered (aws_fault w) (length (requests w)) (selected_requests now items))),
      w\<lparr>queue := queue w @ delivered (aws_fault w) (length (requests w)) (selected_requests now items),
        requests := requests w @ map Send_message (selected_requests now items),
        printed := printed w @ send_log (aws_fault w) (length (requests w)) (selected_requests now items)\<rparr>)"
proof (induction items arbitrary: n w)
  case Nil
  then show ?case by (simp add: selected_requests_def)
next
  case (Cons item items)
  then have wf: "well_formed now item" and rest: "\<forall>item\<in>set items. well_formed now item"
    by simp_all
  note IH = Cons.IH [OF rest]
  show ?case
  proof (cases "selected now item")
    case False
    with wf have nd: "skipped now item" by (simp add: well_formed_def)
    have "selected_requests now (item # items) = selected_requests now items"
      using False by (simp add: selected_requests_def)
    with nd IH show ?thesis
      by (simp add: task_for_item_skipped)
  next
    case True
    with wf obtain t where t: "dispatch_request item = Inr t"
      using dispatch_request_error [of item]
      by (cases "dispatch_request item") (auto simp: well_formed_def dest: selected_not_skipped)
    have dr: "selected_requests now (item # items) = t # selected_requests now items"
      using True t by (simp add: selected_requests_def)
    have step: "task_for_item now item = Inr (Some t)"
      using True t by (rule task_for_item_selected)
    show ?thesis
    proof (cases "aws_fault w (length (requests w))")
      case True
      then show ?thesis
        unfolding dr send_due.simps step
        by (simp add: IH sqs_send_message_def aws_call_def py_print_def)
    next
      case False
      then show ?thesis
        unfolding dr send_due.simps step
        by (simp add: IH sqs_send_message_def aws_call_def py_print_def)
    qed
  qed
qed

lemma delivered_no_fault: "\<forall>k. \<not> fault k \<Longrightarrow> delivered fault k ts = ts"
  by (induction ts arbitrary: k) simp_all

lemma delivered_mem:
  "i < length ts \<Longrightarrow> \<not> fault (k + i) \<Longrightarrow> ts ! i \<in> set (delivered fault k ts)"
proof (induction ts arbitrary: k i)
  case Nil
  then show ?case by simp
next
  case (Cons t ts)
  show ?case
  proof (cases i)
    case 0
    with Cons.prems show ?thesis by simp
  next
    case (Suc j)
    with Cons.prems have "ts ! j \<in> set (delivered fault (Suc k) ts)"
      by (intro Cons.IH) simp_all
    with Suc show ?thesis by simp
  qed
qed

lemma delivered_subset: "set (delivered fault k ts) \<subseteq> set ts"
  by (induction ts arbitrary: k) auto

lemma send_log_failed:
  "i < length ts \<Longrightarrow> fault (k + i) \<Longrightarrow>
   Log_send_failed (user_id (ts ! i)) \<in> set (send_log fault k ts)"
proof (induction ts arbitrary: k i)
  case Nil
  then show ?case by simp
next
  case (Cons t ts)
  show ?case
  proof (cases i)
    case 0
    with Cons.prems show ?thesis by simp
  next
    case (Suc j)
    with Cons.prems have "Log_send_failed (user_id (ts ! j)) \<in> set (send_log fault (Suc k) ts)"
      by (intro Cons.IH) simp_all
    with Suc show ?thesis by simp
  qed
qed

lemma selected_requests_per_record:
  "\<forall>item\<in>set items. well_formed now item \<Longrightarrow>
   list_all2 (\<lambda>item t. dispatch_request item = Inr t)
     (filter (selected now) items) (selected_requests now items)"
proof (induction items)
  case Nil
  then show ?case by (simp add: selected_requests_def)
next
  case (Cons item items)
  then have IH: "list_all2 (\<lambda>item t. dispatch_request item = Inr t)
     (filter (selected now) items) (selected_requests now items)" by simp
  show ?case
  proof (cases "selected now item")
    case False
    with IH show ?thesis by (simp add: selected_requests_def)
  next
    case True
    with Cons.prems obtain t where t: "dispatch_request item = Inr t"
      using dispatch_request_error [of item]
      by (cases "dispatch_request item") (auto simp: well_formed_def dest: selected_not_skipped)
    with True IH show ?thesis by (simp add: selected_requests_def)
  qed
qed

lemma send_due_table: "table (snd (send_due now items n w)) = table w"
proof (induction items arbitrary: n w)
  case Nil
  then show ?case by simp
next
  case (Cons item items)
  show ?case
  proof (cases "task_for_item now item")
    case (Inl e)
    then show ?thesis by simp
  next
    case (Inr opt)
    show ?thesis
    proof (cases opt)
      case None
      with Inr Cons.IH show ?thesis by simp
    next
      case (Some t)
      with Inr Cons.IH show ?thesis
        by (simp add: sqs_send_message_def aws_call_def py_print_def)
    qed
  qed
qed

text \<open>
  Claim C9. Whatever the invocation does (a failed scan, failed sends, an exception that
  ends it), the Preference Store after the sweep is the one before it.
\<close>

theorem sweep_keeps_store:
  "table (snd (centralScheduler_lambda_handler w)) = table w"
proof (cases "aws_fault w (length (requests w))")
  case True
  then show ?thesis
    by (simp add: centralScheduler_lambda_handler_def Let_def dynamodb_scan_def aws_call_def
        py_print_def)
next
  case False
  let ?w1 = "w\<lparr>requests := requests w @ [Scan],
               printed := printed w @ [Log_started, Log_scan_response]\<rparr>"
  obtain r w2 where run: "send_due (plus_hours (clock w) 2) (scanned w) 0 ?w1 = (r, w2)"
    by (cases "send_due (plus_hours (clock w) 2) (scanned w) 0 ?w1")
  have "table (snd (send_due (plus_hours (clock w) 2) (scanned w) 0 ?w1)) = table ?w1"
    by (rule send_due_table)
  with run have "table w2 = table w" by simp
  with False run show ?thesis
    by (simp add: centralScheduler_lambda_handler_def Let_def dynamodb_scan_def aws_call_def
        py_print_def scanned_def split: sum.splits)
qed

lemma handler_after_scan:
  assumes "\<not> aws_fault w (length (requests w))"
    and "\<forall>item\<in>set (scanned w). well_formed (plus_hours (clock w) 2) item"
  shows "centralScheduler_lambda_handler w =
    (Inr \<lparr>statusCode = 200,
          body = Messages_sent (length (delivered (aws_fault w) (Suc (length (requests w)))
                   (selected_requests (plus_hours (clock w) 2) (scanned w))))\<rparr>,
     w\<lparr>queue := queue w @ delivered (aws_fault w) (Suc (length (requests w)))
                  (selected_requests (plus_hours (clock w) 2) (scanned w)),
       requests := requests w @ Scan # map Send_message
                  (selected_requests (plus_hours (clock w) 2) (scanned w)),
       printed := printed w @ Log_started # Log_scan_response #
                  send_log (aws_fault w) (Suc (length (requests w)))
                    (selected_requests (plus_hours (clock w) 2) (scanned w))\<rparr>)"
  using assms
  by (simp add: centralScheduler_lambda_handler_def Let_def dynamodb_scan_def aws_call_def
      py_print_def send_due_run scanned_def)

text \<open>
  When no request fails and every record of the scan response is well formed, the sweep
  answers 200 with the number of selected records as its count, and appends to the queue
  exactly their DispatchRequests, one for each and in scan order.
\<close>

lemma sweep_dispatches_selected_records:
  assumes sends: "\<forall>k. \<not> aws_fault w k"
    and wf: "\<forall>item\<in>set (scanned w). well_formed (plus_hours (clock w) 2) item"
  shows "\<exists>w'. centralScheduler_lambda_handler w =
           (Inr \<lparr>statusCode = 200,
                 body = Messages_sent
                   (length (filter (selected (plus_hours (clock w) 2)) (scanned w)))\<rparr>, w') \<and>
           queue w' = queue w @ selected_requests (plus_hours (clock w) 2) (scanned w) \<and>
           list_all2 (\<lambda>item t. dispatch_request item = Inr t)
             (filter (selected (plus_hours (clock w) 2)) (scanned w))
             (selected_requests (plus_hours (clock w) 2) (scanned w))"
proof -
  let ?now = "plus_hours (clock w) 2"
  have per: "list_all2 (\<lambda>item t. dispatch_request item = Inr t)
      (filter (selected ?now) (scanned w)) (selected_requests ?now (scanned w))"
    using wf by (rule selected_requests_per_record)
  then have len: "length (selected_requests ?now (scanned w)) = length (filter (selected ?now) (scanned w))"
    by (simp add: list_all2_lengthD)
  have all: "delivered (aws_fault w) k (selected_requests ?now (scanned w)) =
      selected_requests ?now (scanned w)" for k
    using sends by (rule delivered_no_fault)
  from sends have "\<not> aws_fault w (length (requests w))" by simp
  from handler_after_scan [OF this wf] per len show ?thesis
    by (simp add: all)
qed

text \<open>
  When the scan fails, the sweep answers 500 and makes no other request: the queue is as
  before. When the scan succeeds and every record of the response is well formed, the
  sweep answers 200 and attempts one send for every selected record, whichever sends
  failed before: a send that fails leaves its line in the log, every other message is in
  the queue, and the count is the number of messages that arrived.
\<close>

lemma sweep_isolates_failed_sends:
  assumes scan_fails: "aws_fault v (length (requests v))"
    and scan_ok: "\<not> aws_fault w (length (requests w))"
    and wf: "\<forall>item\<in>set (scanned w). well_formed (plus_hours (clock w) 2) item"
  shows "(\<exists>v'. centralScheduler_lambda_handler v =
            (Inr \<lparr>statusCode = 500, body = Failed_to_scan\<rparr>, v') \<and>
            queue v' = queue v \<and> requests v' = requests v @ [Scan]) \<and>
         (\<exists>w' n. centralScheduler_lambda_handler w =
            (Inr \<lparr>statusCode = 200, body = Messages_sent n\<rparr>, w') \<and>
            n = length (delivered (aws_fault w) (Suc (length (requests w)))
                  (selected_requests (plus_hours (clock w) 2) (scanned w))) \<and>
            queue w' = queue w @ delivered (aws_fault w) (Suc (length (requests w)))
                  (selected_requests (plus_hours (clock w) 2) (scanned w)) \<and>
            requests w' = requests w @ Scan #
              map Send_message (selected_requests (plus_hours (clock w) 2) (scanned w)) \<and>
            (\<forall>i < length (selected_requests (plus_hours (clock w) 2) (scanned w)).
               if aws_fault w (Suc (length (requests w)) + i)
               then Log_send_failed
                      (user_id (selected_requests (plus_hours (clock w) 2) (scanned w) ! i))
                    \<in> set (printed w')
               else selected_requests (plus_hours (clock w) 2) (scanned w) ! i \<in> set (queue w')))"
proof
  from scan_fails show "\<exists>v'. centralScheduler_lambda_handler v =
      (Inr \<lparr>statusCode = 500, body = Failed_to_scan\<rparr>, v') \<and>
      queue v' = queue v \<and> requests v' = requests v @ [Scan]"
    by (simp add: centralScheduler_lambda_handler_def Let_def dynamodb_scan_def aws_call_def
        py_print_def)
next
  let ?ts = "selected_requests (plus_hours (clock w) 2) (scanned w)"
  let ?k = "Suc (length (requests w))"
  have "\<forall>i < length ?ts.
      if aws_fault w (?k + i)
      then Log_send_failed (user_id (?ts ! i)) \<in> set (send_log (aws_fault w) ?k ?ts)
      else ?ts ! i \<in> set (delivered (aws_fault w) ?k ?ts)"
    by (simp add: delivered_mem send_log_failed)
  with handler_after_scan [OF scan_ok wf]
  show "\<exists>w' n. centralScheduler_lambda_handler w =
      (Inr \<lparr>statusCode = 200, body = Messages_sent n\<rparr>, w') \<and>
      n = length (delivered (aws_fault w) ?k ?ts) \<and>
      queue w' = queue w @ delivered (aws_fault w) ?k ?ts \<and>
      requests w' = requests w @ Scan # map Send_message ?ts \<and>
      (\<forall>i < length ?ts.
         if aws_fault w (?k + i)
         then Log_send_failed (user_id (?ts ! i)) \<in> set (printed w')
         else ?ts ! i \<in> set (queue w'))"
    by simp
qed

lemmas example_defs =
  example_world_def example_item_def example_request_def plus_hours_def

lemmas evaluator_defs =
  is_scheduled_time_def Jednou_denne_def day_mapping_def day_names ascii_def py_split_def
  py_int_def int_strip_def int_space_def digit_val_def decimal_zeros_def weekday_def

lemma example_selected:
  "selected (plus_hours (clock example_world) 2) (example_item (ascii ''1'') (Streda @ ascii '' v 12:00''))"
  "skipped (plus_hours (clock example_world) 2) (example_item (ascii ''2'') (Pondeli @ ascii '' v 10:00''))"
  "selected (plus_hours (clock example_world) 2) (example_item (ascii ''3'') Jednou_denne)"
  by (simp_all add: selected_def skipped_def frequency_of_def get_M_def get_S_def example_defs
      evaluator_defs)

lemma example_dispatch_request:
  "dispatch_request (example_item uid schedule) = Inr (example_request uid schedule)"
  by (simp add: dispatch_request_def get_M_def get_S_def example_item_def example_request_def)

lemma example_well_formed:
  "\<forall>item\<in>set (scanned example_world).
     well_formed (plus_hours (clock example_world) 2) item"
  using example_selected
  by (simp add: well_formed_def example_dispatch_request example_world_def scanned_def)

lemma example_selected_requests:
  "selected_requests (plus_hours (clock example_world) 2) (scanned example_world) =
     [example_request (ascii ''1'') (Streda @ ascii '' v 12:00''),
      example_request (ascii ''3'') Jednou_denne]"
  using example_selected
  by (auto simp: selected_requests_def example_dispatch_request example_world_def
      scanned_def dest: selected_not_skipped)

lemma sweep_dispatches_selected_records_example:
  "aws_fault example_world = (\<lambda>k. False) \<and>
   length (table example_world) = 3 \<and>
   fst (centralScheduler_lambda_handler example_world) =
     Inr \<lparr>statusCode = 200, body = Messages_sent 2\<rparr> \<and>
   queue (snd (centralScheduler_lambda_handler example_world)) =
     [example_request (ascii ''1'') (Streda @ ascii '' v 12:00''),
      example_request (ascii ''3'') Jednou_denne]"
proof -
  have sends: "\<forall>k. \<not> aws_fault example_world k"
    by (simp add: example_world_def)
  have n: "length (filter (selected (plus_hours (clock example_world) 2))
      (scanned example_world)) = 2"
    using example_selected by (auto simp: example_world_def scanned_def dest: selected_not_skipped)
  have q: "queue example_world = []" "length (table example_world) = 3"
    by (simp_all add: example_world_def)
  have nf: "aws_fault example_world = (\<lambda>k. False)"
    by (simp add: example_world_def)
  from sweep_dispatches_selected_records [OF sends example_well_formed] nf q
  show ?thesis
    unfolding n example_selected_requests by auto
qed

lemma sweep_isolates_failed_sends_example:
  "aws_fault scan_outage (length (requests scan_outage)) \<and>
   \<not> aws_fault first_send_fails (length (requests first_send_fails)) \<and>
   fst (centralScheduler_lambda_handler scan_outage) =
     Inr \<lparr>statusCode = 500, body = Failed_to_scan\<rparr> \<and>
   queue (snd (centralScheduler_lambda_handler scan_outage)) = [] \<and>
   fst (centralScheduler_lambda_handler first_send_fails) =
     Inr \<lparr>statusCode = 200, body = Messages_sent 1\<rparr> \<and>
   queue (snd (centralScheduler_lambda_handler first_send_fails)) =
     [example_request (ascii ''3'') Jednou_denne]"
proof -
  have a: "aws_fault scan_outage (length (requests scan_outage))"
    by (simp add: scan_outage_def example_world_def)
  have b: "\<not> aws_fault first_send_fails (length (requests first_send_fails))"
    by (simp add: first_send_fails_def example_world_def)
  have same: "scanned first_send_fails = scanned example_world"
    "clock first_send_fails = clock example_world"
    "queue first_send_fails = []" "queue scan_outage = []"
    "requests first_send_fails = []"
    by (simp_all add: first_send_fails_def scan_outage_def example_world_def scanned_def)
  have wf: "\<forall>item\<in>set (scanned first_send_fails).
      well_formed (plus_hours (clock first_send_fails) 2) item"
    unfolding same by (rule example_well_formed)
  have d: "aws_fault first_send_fails = (\<lambda>k. k = 1)"
    by (simp add: first_send_fails_def)
  from sweep_isolates_failed_sends [OF a b wf] a b show ?thesis
    unfolding same example_selected_requests d by auto
qed

lemmas sweep_defs =
  centralScheduler_lambda_handler_def Let_def dynamodb_scan_def aws_call_def
  sqs_send_message_def py_print_def task_for_item_def get_M_def get_S_def example_item_def
  example_request_def example_world_def plus_hours_def

text \<open>
  Claim C1 fails on the code. The sweep calls the evaluator outside both \<open>try\<close> blocks.
  In a store of two records of which the second is due, with every request answered, the
  first record has a time that is no number: the evaluator raises \<open>ValueError\<close>, the
  invocation ends with it, nothing is enqueued and no count is returned.
\<close>

theorem sweep_aborts_on_malformed_record:
  "aws_fault malformed_world = (\<lambda>k. False) \<and>
   task_for_item (plus_hours (clock malformed_world) 2)
     (example_item (ascii ''3'') Jednou_denne) =
     Inr (Some (example_request (ascii ''3'') Jednou_denne)) \<and>
   fst (centralScheduler_lambda_handler malformed_world) = Inl ValueError \<and>
   queue (snd (centralScheduler_lambda_handler malformed_world)) = []"
  by (simp add: malformed_world_def sweep_defs evaluator_defs)

text \<open>
  Claim C8 fails on the code. The send for the first record fails and is logged, and the
  sweep goes on; the second record has a time that is no number, the evaluator raises
  \<open>ValueError\<close> and the invocation ends with it. The third record is due, and no send is
  attempted for it.
\<close>

theorem sweep_aborts_after_failed_send:
  "task_for_item (plus_hours (clock due_then_malformed) 2)
     (example_item (ascii ''4'') (Streda @ ascii '' v 12:00'')) =
     Inr (Some (example_request (ascii ''4'') (Streda @ ascii '' v 12:00''))) \<and>
   fst (centralScheduler_lambda_handler due_then_malformed) = Inl ValueError \<and>
   queue (snd (centralScheduler_lambda_handler due_then_malformed)) = [] \<and>
   requests (snd (centralScheduler_lambda_handler due_then_malformed)) =
     [Scan, Send_message (example_request (ascii ''3'') Jednou_denne)] \<and>
   printed (snd (centralScheduler_lambda_handler due_then_malformed)) =
     [Log_started, Log_scan_response, Log_send_failed (ascii ''3'')]"
  by (simp add: due_then_malformed_def sweep_defs evaluator_defs)

text \<open>
  The sweep reads one response of the scan. Of two due records of which the response holds
  the first, the second is not dispatched, and the sweep answers 200 with the count 1.
\<close>

lemma sweep_reads_one_page:
  "task_for_item (plus_hours (clock second_page_world) 2)
     (example_item (ascii ''1'') (Streda @ ascii '' v 12:00'')) =
     Inr (Some (example_request (ascii ''1'') (Streda @ ascii '' v 12:00''))) \<and>
   fst (centralScheduler_lambda_handler second_page_world) =
     Inr \<lparr>statusCode = 200, body = Messages_sent 1\<rparr> \<and>
   queue (snd (centralScheduler_lambda_handler second_page_world)) =
     [example_request (ascii ''3'') Jednou_denne]"
  by (simp add: second_page_world_def sweep_defs evaluator_defs)

section \<open>What the Reconciliation Sweeper deletes\<close>

lemma dec_value_snoc: "dec_value (s @ [c]) = 10 * dec_value s + (c - 48)"
  by (simp add: dec_value_def)

lemma dec_value_py_str_nat: "dec_value (py_str_nat n) = n"
proof (induction n rule: py_str_nat.induct)
  case (1 n)
  show ?case
  proof (cases "n < 10")
    case True
    then show ?thesis by (simp add: py_str_nat.simps [of n] dec_value_def)
  next
    case False
    with 1 show ?thesis by (simp add: py_str_nat.simps [of n] dec_value_snoc)
  qed
qed

lemma py_str_nat_inj: "py_str_nat m = py_str_nat n \<Longrightarrow> m = n"
  using dec_value_py_str_nat by metis

lemma survives_single:
  "survives [uid] authority =
     (\<lambda>record. should_delete (authority uid) \<longrightarrow>
        map_of record ''user_id'' \<noteq> Some (S (py_str_nat uid)))"
  by (rule ext) (simp add: survives_def)

lemma check_user_run:
  assumes "\<forall>k. \<not> aws_fault w k"
  shows "\<exists>w' lines. check_user uid w = (Inr (), w') \<and>
           table w' = filter (survives [uid] (role_authority w)) (table w) \<and>
           role_authority w' = role_authority w \<and> aws_fault w' = aws_fault w \<and>
           printed w' = printed w @ lines \<and>
           failure_logged uid (role_authority w uid) lines"
proof (cases "role_authority w uid")
  case (Roles rs)
  with assms show ?thesis
    by (simp add: check_user_def get_user_role_def Let_def py_print_def
        dynamodb_delete_item_def aws_call_def survives_single should_delete_def
        failure_logged_def)
next
  case (Http_error code)
  with assms show ?thesis
    by (simp add: check_user_def get_user_role_def Let_def py_print_def
        dynamodb_delete_item_def aws_call_def survives_single should_delete_def
        failure_logged_def)
next
  case Other_error
  with assms show ?thesis
    by (simp add: check_user_def get_user_role_def Let_def py_print_def
        survives_single should_delete_def failure_logged_def)
qed

lemma failure_logged_mono:
  "failure_logged uid reply lines \<Longrightarrow> failure_logged uid reply (before @ lines @ after)"
  by (auto simp: failure_logged_def split: role_reply.splits)

lemma survives_Cons:
  "survives (uid # uids) authority record \<longleftrightarrow>
   survives [uid] authority record \<and> survives uids authority record"
  by (auto simp: survives_def)

lemma check_users_run:
  assumes "\<forall>k. \<not> aws_fault w k"
  shows "\<exists>w' lines. check_users uids w = (Inr (), w') \<and>
           table w' = filter (survives uids (role_authority w)) (table w) \<and>
           printed w' = printed w @ lines \<and>
           (\<forall>uid\<in>set uids. failure_logged uid (role_authority w uid) lines)"
  using assms
proof (induction uids arbitrary: w)
  case Nil
  then show ?case by (simp add: survives_def)
next
  case (Cons uid uids)
  from check_user_run [OF Cons.prems, of uid] obtain w1 lines1 where
    step: "check_user uid w = (Inr (), w1)"
    and t1: "table w1 = filter (survives [uid] (role_authority w)) (table w)"
    and same: "role_authority w1 = role_authority w" "aws_fault w1 = aws_fault w"
    and p1: "printed w1 = printed w @ lines1"
    and l1: "failure_logged uid (role_authority w uid) lines1"
    by blast
  from Cons.prems same have "\<forall>k. \<not> aws_fault w1 k" by simp
  from Cons.IH [OF this] obtain w2 lines2 where
    rest: "check_users uids w1 = (Inr (), w2)"
    and t2: "table w2 = filter (survives uids (role_authority w1)) (table w1)"
    and p2: "printed w2 = printed w1 @ lines2"
    and l2: "\<forall>u\<in>set uids. failure_logged u (role_authority w1 u) lines2"
    by blast
  have "table w2 = filter (survives (uid # uids) (role_authority w)) (table w)"
    unfolding t2 t1 same by (auto simp: survives_Cons [of uid uids] intro: filter_cong)
  moreover have "printed w2 = printed w @ (lines1 @ lines2)"
    by (simp add: p2 p1)
  moreover have "\<forall>u\<in>set (uid # uids). failure_logged u (role_authority w u) (lines1 @ lines2)"
    using l1 l2 failure_logged_mono [of _ _ lines2 lines1 "[]"]
      failure_logged_mono [of _ _ lines1 "[]" lines2]
    by (auto simp: same)
  ultimately show ?case using step rest by simp
qed

text \<open>
  When no request to the store fails, the sweeper completes, and for a user id from 1 to
  99 the record of that user is gone afterwards exactly when the authority returned roles
  with neither \<open>customer\<close> nor \<open>administrator\<close> or answered 404. On every other
  failure of the authority for that user the record stays and the failure is in the log.
\<close>

lemma reconcile_deletes_iff_store_ok:
  assumes ok: "\<forall>k. \<not> aws_fault w k"
    and uid: "1 \<le> uid" "uid < 100"
    and key: "map_of record ''user_id'' = Some (S (py_str_nat uid))"
  shows "\<exists>w'. CheckUserRole_lambda_handler w =
           (Inr \<lparr>statusCode = 200, body = Cleanup_completed\<rparr>, w') \<and>
           (record \<in> set (table w') \<longleftrightarrow>
              record \<in> set (table w) \<and> \<not> should_delete (role_authority w uid)) \<and>
           failure_logged uid (role_authority w uid) (printed w')"
proof -
  from check_users_run [OF ok, of "[1..<100]"] obtain w' lines where
    run: "check_users [1..<100] w = (Inr (), w')"
    and t: "table w' = filter (survives [1..<100] (role_authority w)) (table w)"
    and p: "printed w' = printed w @ lines"
    and l: "\<forall>u\<in>set [1..<100]. failure_logged u (role_authority w u) lines"
    by blast
  from uid have mem: "uid \<in> set [1..<100]" by simp
  have "survives [1..<100] (role_authority w) record \<longleftrightarrow>
      \<not> should_delete (role_authority w uid)"
  proof
    assume "survives [1..<100] (role_authority w) record"
    with mem key show "\<not> should_delete (role_authority w uid)"
      by (auto simp: survives_def)
  next
    assume keep: "\<not> should_delete (role_authority w uid)"
    show "survives [1..<100] (role_authority w) record"
      unfolding survives_def
    proof (intro ballI impI notI)
      fix u
      assume "should_delete (role_authority w u)"
        and "map_of record ''user_id'' = Some (S (py_str_nat u))"
      with key have "u = uid" by (simp add: py_str_nat_inj)
      with keep \<open>should_delete (role_authority w u)\<close> show False by simp
    qed
  qed
  with t have "record \<in> set (table w') \<longleftrightarrow>
      record \<in> set (table w) \<and> \<not> should_delete (role_authority w uid)"
    by simp
  moreover from l mem have "failure_logged uid (role_authority w uid) (printed w')"
    unfolding p using failure_logged_mono [of uid _ lines "printed w" "[]"] by simp
  ultimately show ?thesis
    using run by (simp add: CheckUserRole_lambda_handler_def)
qed

lemma check_user_frame:
  "\<exists>new. requests (snd (check_user uid w)) = requests w @ new \<and>
     set new \<subseteq> {Get_user_role (py_str_nat uid), Delete_item (py_str_nat uid)} \<and>
     (\<forall>record\<in>set (table w).
        map_of record ''user_id'' \<noteq> Some (S (py_str_nat uid)) \<longrightarrow>
        record \<in> set (table (snd (check_user uid w))))"
  by (cases "role_authority w uid")
     (simp_all add: check_user_def get_user_role_def Let_def py_print_def
        dynamodb_delete_item_def aws_call_def)

lemma check_users_frame:
  "\<exists>new. requests (snd (check_users uids w)) = requests w @ new \<and>
     (\<forall>r\<in>set new. \<exists>uid\<in>set uids.
        r = Get_user_role (py_str_nat uid) \<or> r = Delete_item (py_str_nat uid)) \<and>
     (\<forall>record\<in>set (table w).
        (\<forall>uid\<in>set uids. map_of record ''user_id'' \<noteq> Some (S (py_str_nat uid))) \<longrightarrow>
        record \<in> set (table (snd (check_users uids w))))"
proof (induction uids arbitrary: w)
  case Nil
  then show ?case by simp
next
  case (Cons uid uids)
  obtain r w1 where step: "check_user uid w = (r, w1)"
    by (cases "check_user uid w")
  from check_user_frame [of uid w] step obtain new1 where
    r1: "requests w1 = requests w @ new1"
    and n1: "set new1 \<subseteq> {Get_user_role (py_str_nat uid), Delete_item (py_str_nat uid)}"
    and k1: "\<forall>record\<in>set (table w).
        map_of record ''user_id'' \<noteq> Some (S (py_str_nat uid)) \<longrightarrow> record \<in> set (table w1)"
    by auto
  show ?case
  proof (cases r)
    case (Inl e)
    with step r1 n1 k1 show ?thesis by auto
  next
    case (Inr u)
    from Cons.IH [of w1] obtain new2 where
      r2: "requests (snd (check_users uids w1)) = requests w1 @ new2"
      and n2: "\<forall>r\<in>set new2. \<exists>uid\<in>set uids.
        r = Get_user_role (py_str_nat uid) \<or> r = Delete_item (py_str_nat uid)"
      and k2: "\<forall>record\<in>set (table w1).
        (\<forall>uid\<in>set uids. map_of record ''user_id'' \<noteq> Some (S (py_str_nat uid))) \<longrightarrow>
        record \<in> set (table (snd (check_users uids w1)))"
      by blast
    have run: "check_users (uid # uids) w = check_users uids w1"
      using step Inr by simp
    have "requests (snd (check_users (uid # uids) w)) = requests w @ (new1 @ new2)"
      unfolding run by (simp add: r2 r1)
    moreover have "\<forall>r\<in>set (new1 @ new2). \<exists>u\<in>set (uid # uids).
        r = Get_user_role (py_str_nat u) \<or> r = Delete_item (py_str_nat u)"
      using n1 n2 by auto
    moreover have "\<forall>record\<in>set (table w).
        (\<forall>u\<in>set (uid # uids). map_of record ''user_id'' \<noteq> Some (S (py_str_nat u))) \<longrightarrow>
        record \<in> set (table (snd (check_users (uid # uids) w)))"
      unfolding run using k1 k2 by simp
    ultimately show ?thesis by blast
  qed
qed

text \<open>
  Claim C10. Whatever the authority answers and whichever request fails, every request the
  sweeper makes is a role query or a deletion for the decimal string of a number from 1
  to 99, and a record whose \<open>user_id\<close> is none of these strings is still in the store
  afterwards.
\<close>

theorem reconcile_touches_only_1_to_99:
  "\<exists>new. requests (snd (CheckUserRole_lambda_handler w)) = requests w @ new \<and>
     (\<forall>r\<in>set new. \<exists>uid\<in>{1..<100}.
        r = Get_user_role (py_str_nat uid) \<or> r = Delete_item (py_str_nat uid)) \<and>
     (\<forall>record\<in>set (table w).
        (\<forall>uid\<in>{1..<100}. map_of record ''user_id'' \<noteq> Some (S (py_str_nat uid))) \<longrightarrow>
        record \<in> set (table (snd (CheckUserRole_lambda_handler w))))"
proof -
  have "snd (CheckUserRole_lambda_handler w) = snd (check_users [1..<100] w)"
    by (simp add: CheckUserRole_lambda_handler_def split: prod.splits sum.splits)
  with check_users_frame [of "[1..<100]" w] show ?thesis by simp
qed

lemma py_str_nat_digit: "n < 10 \<Longrightarrow> py_str_nat n = [48 + n]"
  by (simp add: py_str_nat.simps [of n])

lemma reconcile_deletes_iff_store_ok_example:
  "aws_fault reconcile_world = (\<lambda>k. False) \<and>
   example_item (ascii ''2'') (Pondeli @ ascii '' v 10:00'') \<in> set (table reconcile_world) \<and>
   role_authority reconcile_world 2 = Http_error 404 \<and>
   example_item (ascii ''2'') (Pondeli @ ascii '' v 10:00'')
     \<notin> set (table (snd (CheckUserRole_lambda_handler reconcile_world))) \<and>
   role_authority reconcile_world 3 = Http_error 500 \<and>
   example_item (ascii ''3'') Jednou_denne
     \<in> set (table (snd (CheckUserRole_lambda_handler reconcile_world))) \<and>
   Log_http_failed 3 500 \<in> set (printed (snd (CheckUserRole_lambda_handler reconcile_world)))"
proof -
  have ok: "\<forall>k. \<not> aws_fault reconcile_world k"
    by (simp add: reconcile_world_def example_world_def)
  have key: "map_of (example_item (ascii ''2'') s) ''user_id'' = Some (S (py_str_nat 2))"
    "map_of (example_item (ascii ''3'') s) ''user_id'' = Some (S (py_str_nat 3))" for s
    by (simp_all add: example_item_def py_str_nat_digit ascii_def)
  have facts: "role_authority reconcile_world 2 = Http_error 404"
    "role_authority reconcile_world 3 = Http_error 500"
    "example_item (ascii ''2'') (Pondeli @ ascii '' v 10:00'') \<in> set (table reconcile_world)"
    "example_item (ascii ''3'') Jednou_denne \<in> set (table reconcile_world)"
    by (simp_all add: reconcile_world_def example_world_def)
  have nf: "aws_fault reconcile_world = (\<lambda>k. False)"
    by (simp add: reconcile_world_def example_world_def)
  from reconcile_deletes_iff_store_ok [OF ok _ _ key(1), of "Pondeli @ ascii '' v 10:00''"]
    reconcile_deletes_iff_store_ok [OF ok _ _ key(2), of Jednou_denne] nf facts
  show ?thesis
    by (auto simp: should_delete_def failure_logged_def)
qed

theorem reconcile_touches_only_1_to_99_witness:
  "example_item (ascii ''100'') Jednou_denne \<in> set (table purge_world) \<and>
   role_authority purge_world = (\<lambda>uid. Http_error 404) \<and>
   example_item (ascii ''100'') Jednou_denne
     \<in> set (table (snd (CheckUserRole_lambda_handler purge_world)))"
proof -
  have mem: "example_item (ascii ''100'') Jednou_denne \<in> set (table purge_world)"
    and all: "role_authority purge_world = (\<lambda>uid. Http_error 404)"
    by (simp_all add: purge_world_def example_world_def)
  have "dec_value (ascii ''100'') = 100"
    by (simp add: dec_value_def ascii_def)
  then have "ascii ''100'' \<noteq> py_str_nat uid" if "uid < 100" for uid
    using that dec_value_py_str_nat [of uid] by auto
  then have other: "\<forall>uid\<in>{1..<100}.
      map_of (example_item (ascii ''100'') Jednou_denne) ''user_id''
        \<noteq> Some (S (py_str_nat uid))"
    by (simp add: example_item_def)
  from reconcile_touches_only_1_to_99 [of purge_world] mem other all show ?thesis
    by blast
qed

lemmas reconcile_defs =
  check_user_def get_user_role_def Let_def py_print_def dynamodb_delete_item_def aws_call_def

text \<open>
  A deletion that fails inside the \<open>try\<close> block (the authority returned roles) is caught by
  \<open>except Exception\<close>: the failure is logged, the record stays and the loop goes on.
\<close>

lemma failed_delete_in_try_is_logged:
  assumes "role_authority w uid = Roles [ascii ''subscriber'']"
    and "aws_fault w (Suc (length (requests w)))"
  shows "check_user uid w =
     (Inr (), w\<lparr>requests := requests w @
                   [Get_user_role (py_str_nat uid), Delete_item (py_str_nat uid)],
                 printed := printed w @
                   [Log_roles uid [ascii ''subscriber''], Log_deleting uid,
                    Log_unhandled uid]\<rparr>)"
  using assms by (simp add: reconcile_defs ascii_def)

text \<open>
  Claim C7 fails on the code. The deletion in the 404 branch runs inside the
  \<open>except HTTPError\<close> clause, where no \<open>except\<close> clause catches its failure: with an
  authority that answers 404 for every user and a store that fails on the first deletion,
  the handler ends with the \<open>ClientError\<close> after user 1. The failure is not logged, no
  other user is checked, and the record of user 2, unknown to the authority as well, is
  still in the store.
\<close>

theorem reconcile_aborts_on_failed_delete:
  "role_authority store_fault_world 2 = Http_error 404 \<and>
   fst (CheckUserRole_lambda_handler store_fault_world) = Inl ClientError \<and>
   table (snd (CheckUserRole_lambda_handler store_fault_world)) = table store_fault_world \<and>
   requests (snd (CheckUserRole_lambda_handler store_fault_world)) =
     [Get_user_role (ascii ''1''), Delete_item (ascii ''1'')] \<and>
   printed (snd (CheckUserRole_lambda_handler store_fault_world)) =
     [Log_http_failed 1 404, Log_not_found 1]"
proof -
  have first: "check_user 1 store_fault_world =
     (Inl ClientError,
      store_fault_world\<lparr>requests := [Get_user_role (ascii ''1''), Delete_item (ascii ''1'')],
                        printed := [Log_http_failed 1 404, Log_not_found 1]\<rparr>)"
    by (simp add: reconcile_defs store_fault_world_def example_world_def py_str_nat_digit
        ascii_def)
  have "[1..<100] = 1 # [2..<100]"
    by (simp add: upt_conv_Cons)
  then have "check_users [1..<100] store_fault_world =
     (Inl ClientError,
      store_fault_world\<lparr>requests := [Get_user_role (ascii ''1''), Delete_item (ascii ''1'')],
                        printed := [Log_http_failed 1 404, Log_not_found 1]\<rparr>)"
    by (simp only: check_users.simps first prod.case sum.case)
  then show ?thesis
    by (simp add: CheckUserRole_lambda_handler_def store_fault_world_def)
qed

section \<open>What a rebuild does to the rules\<close>

lemma and_then_InrE:
  assumes "and_then r f = (Inr v, w')"
  obtains x w1 where "r = (Inr x, w1)" and "f x w1 = (Inr v, w')"
  using assms by (cases r; cases "fst r") (auto simp: and_then_def)

lemma aws_call_Inr:
  "aws_call r w = (Inr u, w') \<Longrightarrow> w' = w\<lparr>requests := requests w @ [r]\<rparr>"
  by (auto simp: aws_call_def split: if_splits)

lemma put_names_append [simp]: "put_names (xs @ ys) = put_names xs @ put_names ys"
  by (simp add: put_names_def)

lemma put_names_simps [simp]:
  "put_names [] = []"
  "put_names (Put_rule name cron # rs) = name # put_names rs"
  "put_names (Put_targets name t # rs) = put_names rs"
  "put_names (Scan # rs) = put_names rs"
  "put_names (List_rules # rs) = put_names rs"
  "put_names (List_targets_by_rule name # rs) = put_names rs"
  "put_names (Remove_targets name ids # rs) = put_names rs"
  "put_names (Delete_rule name # rs) = put_names rs"
  by (simp_all add: put_names_def)

lemma grows_refl: "grows w w"
  by (simp add: grows_def)

lemma grows_trans: "grows w w1 \<Longrightarrow> grows w1 w2 \<Longrightarrow> grows w w2"
  unfolding grows_def
  by (elim conjE exE) (rule conjI, simp, rule conjI, rule_tac x = "new @ newa" in exI, simp, simp)

lemma eb_put_rule_Inr:
  assumes "eb_put_rule name cron st w = (Inr u, w')"
  shows "w' = w\<lparr>requests := requests w @ [Put_rule name cron],
                rules := AList.update name
                  (case map_of (rules w) name of
                     None \<Rightarrow> \<lparr>ScheduleExpression = cron, rule_State = st, Targets = []\<rparr>
                   | Some r \<Rightarrow> r\<lparr>ScheduleExpression := cron, rule_State := st\<rparr>) (rules w)\<rparr>"
  using assms unfolding eb_put_rule_def
  by (auto elim!: and_then_InrE dest!: aws_call_Inr split: if_splits)

lemma eb_put_targets_Inr:
  assumes "eb_put_targets name t w = (Inr u, w')"
  shows "\<exists>r. map_of (rules w) name = Some r \<and>
           w' = w\<lparr>requests := requests w @ [Put_targets name t],
                  rules := AList.update name
                    (r\<lparr>Targets := filter (\<lambda>t'. target_Id t' \<noteq> target_Id t) (Targets r) @ [t]\<rparr>)
                    (rules w)\<rparr>"
  using assms unfolding eb_put_targets_def
  by (auto elim!: and_then_InrE dest!: aws_call_Inr split: option.splits)

lemma create_effect:
  assumes "create_eventbridge_rule (S u) cron day w = (Inr x, w')"
  shows "\<exists>n r. n \<in> {1000..9999} \<and> table w' = table w \<and>
           requests w' = requests w @ [Put_rule (rule_name_for u n) cron,
                                        Put_targets (rule_name_for u n) (worker_target u)] \<and>
           map_of (rules w') = (map_of (rules w))(rule_name_for u n \<mapsto> r) \<and>
           worker_target u \<in> set (Targets r) \<and>
           (\<forall>r0. map_of (rules w) (rule_name_for u n) = Some r0 \<longrightarrow>
              (\<forall>t\<in>set (Targets r0).
                 target_Id t \<noteq> target_Id (worker_target u) \<longrightarrow> t \<in> set (Targets r)))"
proof -
  define n where "n = 1000 + randoms w (draws w) mod 9000"
  define w1 where "w1 = w\<lparr>draws := Suc (draws w)\<rparr>"
  have "randoms w (draws w) mod 9000 < 9000" by simp
  then have n: "n \<in> {1000..9999}"
    unfolding n_def by auto
  from assms have "and_then (eb_put_rule (rule_name_for u n) cron (ascii ''ENABLED'') w1)
      (\<lambda>_ w2. eb_put_targets (rule_name_for u n) (worker_target u) w2) = (Inr x, w')"
    by (simp add: create_eventbridge_rule_def random_randint_def n_def w1_def)
  then obtain y w2 where
    put: "eb_put_rule (rule_name_for u n) cron (ascii ''ENABLED'') w1 = (Inr y, w2)"
    and tg: "eb_put_targets (rule_name_for u n) (worker_target u) w2 = (Inr x, w')"
    by (rule and_then_InrE)
  let ?name = "rule_name_for u n"
  let ?r1 = "case map_of (rules w1) ?name of
               None \<Rightarrow> \<lparr>ScheduleExpression = cron, rule_State = ascii ''ENABLED'', Targets = []\<rparr>
             | Some r \<Rightarrow> r\<lparr>ScheduleExpression := cron, rule_State := ascii ''ENABLED''\<rparr>"
  from eb_put_rule_Inr [OF put] have w2: "w2 = w1\<lparr>requests := requests w1 @ [Put_rule ?name cron],
      rules := AList.update ?name ?r1 (rules w1)\<rparr>" .
  then have m2: "map_of (rules w2) ?name = Some ?r1"
    by (simp add: update_conv')
  from eb_put_targets_Inr [OF tg] m2 have w': "w' = w2\<lparr>
      requests := requests w2 @ [Put_targets ?name (worker_target u)],
      rules := AList.update ?name
        (?r1\<lparr>Targets := filter (\<lambda>t'. target_Id t' \<noteq> target_Id (worker_target u)) (Targets ?r1)
                  @ [worker_target u]\<rparr>) (rules w2)\<rparr>"
    by auto
  let ?r = "?r1\<lparr>Targets := filter (\<lambda>t'. target_Id t' \<noteq> target_Id (worker_target u)) (Targets ?r1)
                  @ [worker_target u]\<rparr>"
  have "table w' = table w"
    by (simp add: w' w2 w1_def)
  moreover have "requests w' = requests w @ [Put_rule ?name cron,
      Put_targets ?name (worker_target u)]"
    by (simp add: w' w2 w1_def)
  moreover have "map_of (rules w') = (map_of (rules w))(?name \<mapsto> ?r)"
    by (simp add: w' w2 w1_def update_conv')
  moreover have "worker_target u \<in> set (Targets ?r)"
    by simp
  moreover have "\<forall>r0. map_of (rules w) ?name = Some r0 \<longrightarrow>
      (\<forall>t\<in>set (Targets r0).
         target_Id t \<noteq> target_Id (worker_target u) \<longrightarrow> t \<in> set (Targets ?r))"
    by (simp add: w1_def)
  ultimately show ?thesis using n by blast
qed

lemma worker_target_inj:
  "target_Id (worker_target u0) = target_Id (worker_target u) \<Longrightarrow> u0 = u"
  by (simp add: worker_target_def)

lemma create_grows:
  assumes "create_eventbridge_rule (S u) cron day w = (Inr x, w')"
  shows "grows w w' \<and> has_rule u w'"
proof -
  from create_effect [OF assms] obtain n r where
    n: "n \<in> {1000..9999}" and tab: "table w' = table w"
    and req: "requests w' = requests w @ [Put_rule (rule_name_for u n) cron,
        Put_targets (rule_name_for u n) (worker_target u)]"
    and m: "map_of (rules w') = (map_of (rules w))(rule_name_for u n \<mapsto> r)"
    and new: "worker_target u \<in> set (Targets r)"
    and old: "\<forall>r0. map_of (rules w) (rule_name_for u n) = Some r0 \<longrightarrow>
      (\<forall>t\<in>set (Targets r0).
         target_Id t \<noteq> target_Id (worker_target u) \<longrightarrow> t \<in> set (Targets r))"
    by blast
  have here: "has_rule u w'"
    unfolding has_rule_def using n new by (intro bexI [of _ n]) (simp_all add: m)
  have keep: "has_rule u0 w'" if h: "has_rule u0 w" for u0
  proof -
    from h obtain n0 r0 where n0: "n0 \<in> {1000..9999}"
      and r0: "map_of (rules w) (rule_name_for u0 n0) = Some r0"
      and t0: "worker_target u0 \<in> set (Targets r0)"
      by (auto simp: has_rule_def split: option.splits)
    show ?thesis
    proof (cases "rule_name_for u0 n0 = rule_name_for u n")
      case False
      with r0 t0 n0 show ?thesis
        unfolding has_rule_def by (intro bexI [of _ n0]) (simp_all add: m)
    next
      case True
      show ?thesis
      proof (cases "u0 = u")
        case True
        with here show ?thesis by simp
      next
        case False
        then have "target_Id (worker_target u0) \<noteq> target_Id (worker_target u)"
          using worker_target_inj by blast
        with old r0 t0 True have "worker_target u0 \<in> set (Targets r)" by auto
        with True n0 show ?thesis
          unfolding has_rule_def by (intro bexI [of _ n0]) (simp_all add: m)
      qed
    qed
  qed
  have "\<forall>k. k \<notin> set (put_names [Put_rule (rule_name_for u n) cron,
      Put_targets (rule_name_for u n) (worker_target u)]) \<longrightarrow>
      map_of (rules w') k = map_of (rules w) k"
    by (simp add: m)
  with tab req keep have "grows w w'"
    unfolding grows_def by blast
  with here show ?thesis by simp
qed

lemma create_Inr_is_S:
  "create_eventbridge_rule uid cron day w = (Inr x, w') \<Longrightarrow> \<exists>u. uid = S u"
  by (cases uid) (simp_all add: create_eventbridge_rule_def random_randint_def)

lemma process_day_grows:
  assumes "process_day_with_time uid d w = (Inr x, w')"
  shows "grows w w' \<and> (\<forall>u. uid = S u \<longrightarrow> has_rule u w')"
proof -
  from assms obtain cron day where c: "create_eventbridge_rule uid cron day w = (Inr x, w')"
    by (auto simp: process_day_with_time_def split: if_splits list.splits)
  then obtain u where "uid = S u" using create_Inr_is_S by blast
  with c create_grows [of u cron day w x w'] show ?thesis by simp
qed

lemma process_days_grows:
  "process_days uid ds w = (Inr x, w') \<Longrightarrow>
   grows w w' \<and> (\<forall>u. uid = S u \<and> ds \<noteq> [] \<longrightarrow> has_rule u w')"
proof (induction ds arbitrary: w)
  case Nil
  then show ?case by (simp add: grows_refl)
next
  case (Cons d ds)
  from Cons.prems obtain y w1 where
    first: "process_day_with_time uid d w = (Inr y, w1)"
    and rest: "process_days uid ds w1 = (Inr x, w')"
    by (auto elim: and_then_InrE)
  from process_day_grows [OF first] have g1: "grows w w1"
    and h1: "\<forall>u. uid = S u \<longrightarrow> has_rule u w1" by simp_all
  from Cons.IH [OF rest] have g2: "grows w1 w'" by simp
  from g1 g2 have "grows w w'" by (rule grows_trans)
  moreover from h1 g2 have "\<forall>u. uid = S u \<longrightarrow> has_rule u w'"
    by (simp add: grows_def)
  ultimately show ?case by simp
qed

lemma py_split_nonempty: "py_split sep s \<noteq> []"
  by (simp add: py_split_def py_split_from_nonempty)

lemma process_user_preferences_grows:
  assumes "process_user_preferences uid prefs w = (Inr x, w')"
  shows "grows w w' \<and>
    (\<forall>u p f. uid = S u \<and> prefs = M p \<and> map_of p ''frekvence_zasilani'' = Some (S f) \<and> f \<noteq> []
       \<longrightarrow> has_rule u w')"
proof (cases prefs)
  case (S s)
  with assms show ?thesis by (simp add: process_user_preferences_def)
next
  case (M p)
  show ?thesis
  proof (cases "map_of p ''frekvence_zasilani''")
    case None
    with M assms show ?thesis by (simp add: process_user_preferences_def grows_refl)
  next
    case (Some a)
    show ?thesis
    proof (cases a)
      case (S f)
      show ?thesis
      proof (cases "f = []")
        case True
        with M Some S assms show ?thesis
          by (simp add: process_user_preferences_def grows_refl)
      next
        case False
        with M Some S assms
        have "process_days uid (py_split (ascii '', '') f) w = (Inr x, w')"
          by (simp add: process_user_preferences_def)
        from process_days_grows [OF this] M Some S show ?thesis
          by (simp add: py_split_nonempty)
      qed
    next
      case (M m)
      with \<open>prefs = M p\<close> Some assms show ?thesis
        by (simp add: process_user_preferences_def grows_refl split: if_splits)
    qed
  qed
qed

lemma eligibleD:
  assumes "eligible item u"
  obtains p f where "u \<noteq> []" and "map_of item ''user_id'' = Some (S u)"
    and "map_of item ''preferences'' = Some (M p)"
    and "map_of p ''frekvence_zasilani'' = Some (S f)" and "f \<noteq> []" and "p \<noteq> []"
proof -
  from assms obtain p where u: "u \<noteq> []" "map_of item ''user_id'' = Some (S u)"
    and p: "map_of item ''preferences'' = Some (M p)"
    and c: "(case map_of p ''frekvence_zasilani'' of Some (S f) \<Rightarrow> f \<noteq> [] | _ \<Rightarrow> False)"
    unfolding eligible_def by (cases "map_of item ''preferences''") (auto split: attr.splits)
  from c obtain f where f: "map_of p ''frekvence_zasilani'' = Some (S f)" "f \<noteq> []"
    by (cases "map_of p ''frekvence_zasilani''") (auto split: attr.splits)
  from f(1) have "p \<noteq> []" by auto
  with u p f that show thesis by blast
qed

lemma process_items_grows:
  "process_items items w = (Inr x, w') \<Longrightarrow>
   grows w w' \<and> (\<forall>item\<in>set items. \<forall>u. eligible item u \<longrightarrow> has_rule u w')"
proof (induction items arbitrary: w)
  case Nil
  then show ?case by (simp add: grows_refl)
next
  case (Cons item items)
  show ?case
  proof (cases "\<exists>uid prefs. map_of item ''user_id'' = Some uid \<and>
      map_of item ''preferences'' = Some prefs \<and> truthy (Some uid) \<and> truthy (Some prefs)")
    case False
    then have skip: "process_items (item # items) w = process_items items w"
      by (auto split: option.splits)
    have "\<not> eligible item u" for u
    proof
      assume "eligible item u"
      then obtain p where "map_of item ''user_id'' = Some (S u)" "u \<noteq> []"
        "map_of item ''preferences'' = Some (M p)" "p \<noteq> []"
        by (rule eligibleD)
      with False show False by (simp add: truthy_def)
    qed
    with Cons.IH [of w] Cons.prems skip show ?thesis by simp
  next
    case True
    then obtain uid prefs where f: "map_of item ''user_id'' = Some uid"
      "map_of item ''preferences'' = Some prefs" "truthy (Some uid)" "truthy (Some prefs)"
      by blast
    with Cons.prems obtain y w1 where
      first: "process_user_preferences uid prefs w = (Inr y, w1)"
      and rest: "process_items items w1 = (Inr x, w')"
      by (auto elim: and_then_InrE)
    from process_user_preferences_grows [OF first] have g1: "grows w w1"
      and h1: "\<forall>u p f. uid = S u \<and> prefs = M p \<and>
        map_of p ''frekvence_zasilani'' = Some (S f) \<and> f \<noteq> [] \<longrightarrow> has_rule u w1"
      by simp_all
    from Cons.IH [OF rest] have g2: "grows w1 w'"
      and h2: "\<forall>item\<in>set items. \<forall>u. eligible item u \<longrightarrow> has_rule u w'" by simp_all
    have "has_rule u w'" if "eligible item u" for u
    proof -
      from that obtain p fr where "map_of item ''user_id'' = Some (S u)"
        "map_of item ''preferences'' = Some (M p)"
        "map_of p ''frekvence_zasilani'' = Some (S fr)" "fr \<noteq> []"
        by (rule eligibleD)
      with f h1 have "has_rule u w1" by auto
      with g2 show ?thesis by (simp add: grows_def)
    qed
    with h2 grows_trans [OF g1 g2] show ?thesis by simp
  qed
qed

lemma eb_list_targets_Inr:
  "eb_list_targets_by_rule name w = (Inr ts, w') \<Longrightarrow>
   w' = w\<lparr>requests := requests w @ [List_targets_by_rule name]\<rparr>"
  unfolding eb_list_targets_by_rule_def
  by (auto elim!: and_then_InrE dest!: aws_call_Inr split: option.splits)

lemma eb_remove_targets_Inr:
  "eb_remove_targets name ids w = (Inr x, w') \<Longrightarrow>
   \<exists>r. w' = w\<lparr>requests := requests w @ [Remove_targets name ids],
                rules := AList.update name r (rules w)\<rparr>"
  unfolding eb_remove_targets_def
  by (auto elim!: and_then_InrE dest!: aws_call_Inr split: option.splits)

lemma eb_delete_rule_Inr:
  assumes "eb_delete_rule name w = (Inr x, w')"
  shows "table w' = table w \<and> scan_page w' = scan_page w \<and>
         requests w' = requests w @ [Delete_rule name] \<and>
         (\<forall>n. map_of (rules w') n = (if n = name then None else map_of (rules w) n))"
  using assms unfolding eb_delete_rule_def
  by (auto elim!: and_then_InrE dest!: aws_call_Inr split: option.splits if_splits
      simp: delete_conv')

lemma remove_targets_from_rule_Inr:
  assumes "remove_targets_from_rule name w = (Inr x, w')"
  shows "table w' = table w \<and> scan_page w' = scan_page w \<and>
         (\<exists>new. requests w' = requests w @ new \<and> put_names new = []) \<and>
         (\<forall>n. n \<noteq> name \<longrightarrow> map_of (rules w') n = map_of (rules w) n)"
proof -
  from assms obtain ts w1 where
    l: "eb_list_targets_by_rule name w = (Inr ts, w1)"
    and r: "(if map target_Id ts \<noteq> [] then eb_remove_targets name (map target_Id ts) w1
             else (Inr (), w1)) = (Inr x, w')"
    unfolding remove_targets_from_rule_def Let_def by (rule and_then_InrE)
  note w1 = eb_list_targets_Inr [OF l]
  show ?thesis
  proof (cases "map target_Id ts \<noteq> []")
    case False
    with r w1 show ?thesis by auto
  next
    case True
    with r have "eb_remove_targets name (map target_Id ts) w1 = (Inr x, w')" by simp
    from eb_remove_targets_Inr [OF this] obtain ru where
      "w' = w1\<lparr>requests := requests w1 @ [Remove_targets name (map target_Id ts)],
               rules := AList.update name ru (rules w1)\<rparr>" by blast
    with w1 show ?thesis by (simp add: update_conv')
  qed
qed

lemma clear_rules_Inr:
  "clear_rules names w = (Inr x, w') \<Longrightarrow>
   table w' = table w \<and> scan_page w' = scan_page w \<and>
   (\<exists>new. requests w' = requests w @ new \<and> put_names new = []) \<and>
   (\<forall>n. map_of (rules w') n =
      (if n \<in> set names \<and> \<not> protected n then None else map_of (rules w) n))"
proof (induction names arbitrary: w)
  case Nil
  then show ?case by simp
next
  case (Cons name names)
  show ?case
  proof (cases "protected name")
    case True
    with Cons.prems have "clear_rules names w = (Inr x, w')"
      by (simp add: protected_def)
    from Cons.IH [OF this] True show ?thesis by auto
  next
    case False
    with Cons.prems obtain y w1 z w2 where
      a: "remove_targets_from_rule name w = (Inr y, w1)"
      and b: "eb_delete_rule name w1 = (Inr z, w2)"
      and c: "clear_rules names w2 = (Inr x, w')"
      by (auto simp: protected_def elim!: and_then_InrE)
    from remove_targets_from_rule_Inr [OF a] obtain new1 where
      t1: "table w1 = table w" "scan_page w1 = scan_page w"
      and r1: "requests w1 = requests w @ new1" "put_names new1 = []"
      and m1: "\<forall>n. n \<noteq> name \<longrightarrow> map_of (rules w1) n = map_of (rules w) n"
      by blast
    from eb_delete_rule_Inr [OF b] have
      t2: "table w2 = table w1" "scan_page w2 = scan_page w1"
      and r2: "requests w2 = requests w1 @ [Delete_rule name]"
      and m2: "\<forall>n. map_of (rules w2) n = (if n = name then None else map_of (rules w1) n)"
      by simp_all
    from Cons.IH [OF c] obtain new3 where
      t3: "table w' = table w2" "scan_page w' = scan_page w2"
      and r3: "requests w' = requests w2 @ new3" "put_names new3 = []"
      and m3: "\<forall>n. map_of (rules w') n =
        (if n \<in> set names \<and> \<not> protected n then None else map_of (rules w2) n)"
      by blast
    have "table w' = table w" "scan_page w' = scan_page w" by (simp_all add: t3 t2 t1)
    moreover have "requests w' = requests w @ (new1 @ Delete_rule name # new3)"
      "put_names (new1 @ Delete_rule name # new3) = []"
      by (simp_all add: r3 r2 r1)
    moreover have "\<forall>n. map_of (rules w') n =
        (if n \<in> set (name # names) \<and> \<not> protected n then None else map_of (rules w) n)"
      using False m1 by (auto simp: m3 m2)
    ultimately show ?thesis by blast
  qed
qed

lemma listed_exists: "n \<in> set (listed w) \<Longrightarrow> map_of (rules w) n \<noteq> None"
proof -
  assume "n \<in> set (listed w)"
  then have "n \<in> set (remdups (map fst (rules w)))"
    unfolding listed_def by (rule in_set_takeD)
  then show ?thesis by (simp add: map_of_eq_None_iff)
qed

lemma clear_all_rules_Inr:
  assumes "clear_all_rules w = (Inr x, w')"
  shows "table w' = table w \<and> scan_page w' = scan_page w \<and>
         (\<exists>new. requests w' = requests w @ new \<and> put_names new = []) \<and>
         (\<forall>n. map_of (rules w') n =
            (if n \<in> set (listed w) \<and> \<not> protected n then None else map_of (rules w) n))"
proof -
  from assms obtain names w1 where
    l: "eb_list_rules w = (Inr names, w1)" and c: "clear_rules names w1 = (Inr x, w')"
    unfolding clear_all_rules_def by (rule and_then_InrE)
  from l have w1: "w1 = w\<lparr>requests := requests w @ [List_rules]\<rparr>"
    and names: "names = listed w"
    unfolding eb_list_rules_def listed_def
    by (auto elim!: and_then_InrE dest!: aws_call_Inr)
  from clear_rules_Inr [OF c] obtain new where
    t: "table w' = table w1" "scan_page w' = scan_page w1"
    and r: "requests w' = requests w1 @ new" "put_names new = []"
    and m: "\<forall>n. map_of (rules w') n =
      (if n \<in> set names \<and> \<not> protected n then None else map_of (rules w1) n)"
    by blast
  have "table w' = table w" "scan_page w' = scan_page w" by (simp_all add: t w1)
  moreover have "requests w' = requests w @ (List_rules # new)"
    "put_names (List_rules # new) = []"
    by (simp_all add: r w1)
  moreover have "\<forall>n. map_of (rules w') n =
      (if n \<in> set (listed w) \<and> \<not> protected n then None else map_of (rules w) n)"
    by (simp add: m w1 names)
  ultimately show ?thesis by blast
qed

lemma dynamodb_scan_Inr:
  "dynamodb_scan w = (Inr items, w') \<Longrightarrow>
   items = scanned w \<and> w' = w\<lparr>requests := requests w @ [Scan]\<rparr>"
  unfolding dynamodb_scan_def scanned_def
  by (auto dest!: aws_call_Inr split: prod.splits sum.splits)

text \<open>
  What a completed rebuild achieves when no name generated for a new rule is the name of a
  rule that existed before: every unprotected rule of the \<open>list_rules\<close> response is
  absent, every protected rule is as it was, and every record of the scan response with a
  non-empty \<open>user_id\<close> and a non-empty frequency string has a rule that carries the target
  pointing at the Search Worker.
\<close>

lemma rebuild_replaces_listed_rules:
  assumes completed: "evenbridge_lambda_handler w =
      (Inr \<lparr>statusCode = 200, body = Rules_recreated\<rparr>, w')"
    and fresh: "\<forall>name\<in>set (created w w'). map_of (rules w) name = None"
  shows "(\<forall>name\<in>set (listed w). \<not> protected name \<longrightarrow> map_of (rules w') name = None) \<and>
         (\<forall>name. map_of (rules w) name \<noteq> None \<and> protected name \<longrightarrow>
            map_of (rules w') name = map_of (rules w) name) \<and>
         (\<forall>item\<in>set (scanned w). \<forall>u. eligible item u \<longrightarrow> has_rule u w')"
proof -
  from completed obtain x where run: "and_then (clear_all_rules w) (\<lambda>_ w1.
      and_then (dynamodb_scan w1) (\<lambda>items w2. process_items items w2)) = (Inr x, w')"
    by (auto simp: evenbridge_lambda_handler_def split: prod.splits sum.splits)
  then obtain y w1 items w2 where
    a: "clear_all_rules w = (Inr y, w1)"
    and b: "dynamodb_scan w1 = (Inr items, w2)"
    and c: "process_items items w2 = (Inr x, w')"
    by (auto elim!: and_then_InrE)
  from clear_all_rules_Inr [OF a] obtain new1 where
    t1: "table w1 = table w" "scan_page w1 = scan_page w"
    and r1: "requests w1 = requests w @ new1" "put_names new1 = []"
    and m1: "\<forall>n. map_of (rules w1) n =
      (if n \<in> set (listed w) \<and> \<not> protected n then None else map_of (rules w) n)"
    by blast
  from dynamodb_scan_Inr [OF b] have items: "items = scanned w1"
    and w2: "w2 = w1\<lparr>requests := requests w1 @ [Scan]\<rparr>" by simp_all
  from t1 have sc: "scanned w1 = scanned w" by (simp add: scanned_def)
  from process_items_grows [OF c] have g: "grows w2 w'"
    and h: "\<forall>item\<in>set items. \<forall>u. eligible item u \<longrightarrow> has_rule u w'" by simp_all
  from g obtain new3 where r3: "requests w' = requests w2 @ new3"
    and m3: "\<forall>n. n \<notin> set (put_names new3) \<longrightarrow> map_of (rules w') n = map_of (rules w2) n"
    unfolding grows_def by blast
  have "requests w' = requests w @ (new1 @ Scan # new3)"
    by (simp add: r3 w2 r1)
  then have "created w w' = put_names new3"
    by (simp add: created_def r1)
  with fresh have untouched: "map_of (rules w) n \<noteq> None \<Longrightarrow> n \<notin> set (put_names new3)" for n
    by auto
  have same: "map_of (rules w') n =
      (if n \<in> set (listed w) \<and> \<not> protected n then None else map_of (rules w) n)"
    if "map_of (rules w) n \<noteq> None" for n
    using untouched [OF that] m3 m1 by (simp add: w2)
  have "\<forall>name\<in>set (listed w). \<not> protected name \<longrightarrow> map_of (rules w') name = None"
    using same listed_exists by simp
  moreover have "\<forall>name. map_of (rules w) name \<noteq> None \<and> protected name \<longrightarrow>
      map_of (rules w') name = map_of (rules w) name"
    using same by simp
  moreover have "\<forall>item\<in>set (scanned w). \<forall>u. eligible item u \<longrightarrow> has_rule u w'"
    using h by (simp add: items sc)
  ultimately show ?thesis by blast
qed

lemmas rebuild_defs =
  evenbridge_lambda_handler_def clear_all_rules_def eb_list_rules_def and_then_def
  aws_call_def remove_targets_from_rule_def eb_list_targets_by_rule_def
  eb_remove_targets_def eb_delete_rule_def dynamodb_scan_def truthy_def
  process_user_preferences_def process_day_with_time_def create_eventbridge_rule_def
  random_randint_def eb_put_rule_def eb_put_targets_def valid_rule_name_def name_char_def
  rule_name_for_def worker_target_def py_lower_def Kazdy_den_def py_split_def

lemma py_str_nat_1000: "py_str_nat 1000 = ascii ''1000''"
  by (simp add: py_str_nat.simps [of 1000] py_str_nat.simps [of 100]
      py_str_nat.simps [of 10] py_str_nat_digit ascii_def)

lemma collision_run:
  "evenbridge_lambda_handler collision_world =
     (Inr \<lparr>statusCode = 200, body = Rules_recreated\<rparr>,
      collision_world\<lparr>
        rules := [(ascii ''rule_for_user_gregi_1000'',
                   \<lparr>ScheduleExpression = ascii ''cron(00 10 * * ? *)'',
                    rule_State = ascii ''ENABLED'',
                    Targets = [worker_target (ascii ''gregi'')]\<rparr>),
                  (ascii ''rule_for_user_1_1000'',
                   \<lparr>ScheduleExpression = ascii ''cron(00 10 * * ? *)'',
                    rule_State = ascii ''ENABLED'',
                    Targets = [worker_target (ascii ''1'')]\<rparr>)],
        draws := 2,
        requests :=
          [List_rules,
           List_targets_by_rule (ascii ''rule_for_user_1_1000''),
           Remove_targets (ascii ''rule_for_user_1_1000'') [ascii ''target_1''],
           Delete_rule (ascii ''rule_for_user_1_1000''),
           Scan,
           Put_rule (ascii ''rule_for_user_1_1000'') (ascii ''cron(00 10 * * ? *)''),
           Put_targets (ascii ''rule_for_user_1_1000'') (worker_target (ascii ''1'')),
           Put_rule (ascii ''rule_for_user_gregi_1000'') (ascii ''cron(00 10 * * ? *)''),
           Put_targets (ascii ''rule_for_user_gregi_1000'') (worker_target (ascii ''gregi''))]\<rparr>)"
  by (simp add: collision_world_def example_world_def example_item_def nightly_rule_def
      rebuild_defs py_str_nat_1000 ascii_def)

text \<open>
  Claim C2 fails on the code. The number drawn "for uniqueness" is one of 9000 and
  \<open>put_rule\<close> overwrites a rule of the same name. In the first world the rebuild
  completes with 200; the protected rule \<open>rule_for_user_gregi_1000\<close> has a new schedule
  and a target afterwards, and the unprotected rule \<open>rule_for_user_1_1000\<close> is not absent.
\<close>

theorem rebuild_overwrites_on_name_collision:
  "fst (evenbridge_lambda_handler collision_world) =
     Inr \<lparr>statusCode = 200, body = Rules_recreated\<rparr> \<and>
   protected (ascii ''rule_for_user_gregi_1000'') \<and>
   map_of (rules collision_world) (ascii ''rule_for_user_gregi_1000'') = Some nightly_rule \<and>
   map_of (rules (snd (evenbridge_lambda_handler collision_world)))
     (ascii ''rule_for_user_gregi_1000'') =
     Some \<lparr>ScheduleExpression = ascii ''cron(00 10 * * ? *)'', rule_State = ascii ''ENABLED'',
           Targets = [worker_target (ascii ''gregi'')]\<rparr> \<and>
   nightly_rule \<noteq>
     \<lparr>ScheduleExpression = ascii ''cron(00 10 * * ? *)'', rule_State = ascii ''ENABLED'',
      Targets = [worker_target (ascii ''gregi'')]\<rparr> \<and>
   \<not> protected (ascii ''rule_for_user_1_1000'') \<and>
   map_of (rules collision_world) (ascii ''rule_for_user_1_1000'') \<noteq> None \<and>
   map_of (rules (snd (evenbridge_lambda_handler collision_world)))
     (ascii ''rule_for_user_1_1000'') \<noteq> None"
  unfolding collision_run
  by (simp add: collision_world_def example_world_def nightly_rule_def protected_def
      py_lower_def ascii_def)

lemma rebuild_world_run:
  "fst (evenbridge_lambda_handler rebuild_world) =
     Inr \<lparr>statusCode = 200, body = Rules_recreated\<rparr>"
  "requests (snd (evenbridge_lambda_handler rebuild_world)) =
     [List_rules,
      List_targets_by_rule (ascii ''rule_for_user_2_4321''),
      Remove_targets (ascii ''rule_for_user_2_4321'') [ascii ''target_2''],
      Delete_rule (ascii ''rule_for_user_2_4321''),
      Scan,
      Put_rule (ascii ''rule_for_user_1_1000'') (ascii ''cron(00 10 ? * 4 *)''),
      Put_targets (ascii ''rule_for_user_1_1000'') (worker_target (ascii ''1'')),
      Put_rule (ascii ''rule_for_user_2_1000'') (ascii ''cron(00 10 ? * 2 *)''),
      Put_targets (ascii ''rule_for_user_2_1000'') (worker_target (ascii ''2'')),
      Put_rule (ascii ''rule_for_user_3_1000'') (ascii ''cron(00 10 ? * * *)''),
      Put_targets (ascii ''rule_for_user_3_1000'') (worker_target (ascii ''3''))]"
  by (simp_all add: rebuild_world_def example_world_def example_item_def nightly_rule_def
      rebuild_defs py_str_nat_1000 day_to_cron_def day_to_cron_map_def day_names
      Jednou_denne_def ascii_def)

lemma rebuild_replaces_listed_rules_example:
  "fst (evenbridge_lambda_handler rebuild_world) =
     Inr \<lparr>statusCode = 200, body = Rules_recreated\<rparr> \<and>
   created rebuild_world (snd (evenbridge_lambda_handler rebuild_world)) =
     [ascii ''rule_for_user_1_1000'', ascii ''rule_for_user_2_1000'',
      ascii ''rule_for_user_3_1000''] \<and>
   map_of (rules (snd (evenbridge_lambda_handler rebuild_world)))
     (ascii ''rule_for_user_2_4321'') = None \<and>
   map_of (rules (snd (evenbridge_lambda_handler rebuild_world)))
     (ascii ''Gregi-nightly'') = Some nightly_rule"
proof -
  let ?w' = "snd (evenbridge_lambda_handler rebuild_world)"
  note ok = rebuild_world_run(1)
  then have completed: "evenbridge_lambda_handler rebuild_world =
      (Inr \<lparr>statusCode = 200, body = Rules_recreated\<rparr>, ?w')"
    by (simp add: prod_eq_iff)
  have names: "created rebuild_world ?w' =
      [ascii ''rule_for_user_1_1000'', ascii ''rule_for_user_2_1000'',
       ascii ''rule_for_user_3_1000'']"
    unfolding created_def rebuild_world_run(2)
    by (simp add: rebuild_world_def example_world_def)
  have fresh: "\<forall>name\<in>set (created rebuild_world ?w'). map_of (rules rebuild_world) name = None"
    unfolding names by (simp add: rebuild_world_def ascii_def)
  have before: "map_of (rules rebuild_world) (ascii ''rule_for_user_2_4321'') \<noteq> None"
    "\<not> protected (ascii ''rule_for_user_2_4321'')"
    "map_of (rules rebuild_world) (ascii ''Gregi-nightly'') = Some nightly_rule"
    "protected (ascii ''Gregi-nightly'')"
    by (simp_all add: rebuild_world_def protected_def py_lower_def ascii_def)
  have l: "ascii ''rule_for_user_2_4321'' \<in> set (listed rebuild_world)"
    by (simp add: listed_def rebuild_world_def example_world_def ascii_def)
  from rebuild_replaces_listed_rules [OF completed fresh] before ok names l show ?thesis
    by auto
qed

text \<open>
  The rebuild reads one response of \<open>list_rules\<close>. Of two unprotected rules of which the
  response names the first, the second is still there after a rebuild that completes with
  200.
\<close>

lemma rebuild_reads_one_page:
  "\<not> protected (ascii ''rule_for_user_6_3333'') \<and>
   fst (evenbridge_lambda_handler two_pages_of_rules) =
     Inr \<lparr>statusCode = 200, body = Rules_recreated\<rparr> \<and>
   map fst (rules (snd (evenbridge_lambda_handler two_pages_of_rules))) =
     [ascii ''rule_for_user_6_3333'']"
  by (simp add: two_pages_of_rules_def example_world_def rebuild_defs protected_def ascii_def)

end
